theory Spec2Isabelle
  imports Main "HOL-Library.Word"
begin

section \<open>Data model\<close>

text \<open>
  The development embeds \<^verbatim>\<open>src/js/net/loader/FileLoader.js\<close> (the resumable chunked
  loader) together with the part of \<^verbatim>\<open>URLLoader\<close> that stores a whole response.
  A FileLoader object talks to \<^verbatim>\<open>XMLHttpRequest\<close> objects and to \<^verbatim>\<open>window\<close>; both are
  mutable objects shared with the browser, so they live in an explicit store. The
  fields of the loader, the store of request objects, the listener list of
  \<^verbatim>\<open>window\<close>, the counter that names function objects and the log of emitted
  notifications form one record that every method takes and returns.
\<close>

type_synonym bytes = "8 word list"

datatype error = TypeError | RangeError

text \<open>
  A method either returns with the new state (\<open>Inr\<close>) or throws (\<open>Inl\<close>); a throw keeps
  the state reached at the throwing statement.
\<close>

type_synonym 'a outcome = "(error \<times> 'a) + 'a"

text \<open>\<^verbatim>\<open>LoaderDataFormat\<close>, \<^verbatim>\<open>EventLevel\<close>.\<close>

definition BINARY :: string where "BINARY = ''binary''"
definition JSON :: string where "JSON = ''json''"
definition TEXT :: string where "TEXT = ''text''"
definition DOCUMENT :: string where "DOCUMENT = ''document''"

datatype level = Lv_status | Lv_command | Lv_warning | Lv_error

text \<open>
  \<^verbatim>\<open>bytesTotal\<close> holds a JavaScript value: the number written by \<^verbatim>\<open>reset\<close>, or what
  \<^verbatim>\<open>getResponseHeader('Content-Length')\<close> returned, which is \<^verbatim>\<open>null\<close> or the header's
  string of decimal digits. \<open>truthy\<close> is the test \<^verbatim>\<open>!!v\<close> (a non-empty string is true,
  also \<^verbatim>\<open>"0"\<close>), \<open>to_number\<close> the conversion the comparison \<^verbatim>\<open><\<close> applies.
\<close>

datatype total = Number nat | Header "nat option"

fun truthy :: "total \<Rightarrow> bool" where
  "truthy (Number n) = (n \<noteq> 0)"
| "truthy (Header None) = False"
| "truthy (Header (Some n)) = True"

fun to_number :: "total \<Rightarrow> nat" where
  "to_number (Number n) = n"
| "to_number (Header None) = 0"
| "to_number (Header (Some n)) = n"

text \<open>
  The notifications of \<^verbatim>\<open>LoaderEvent\<close> and the \<^verbatim>\<open>networkState\<close> channel, with the
  payload fields the methods fill in. The \<^verbatim>\<open>message\<close> text and the floating point
  \<^verbatim>\<open>progress\<close> fraction are left out.
\<close>

datatype notification =
    START level
  | CLOSE level nat total
  | ERROR nat level string
  | PROGRESS level nat total
  | COMPLETE level bytes
  | NETWORK_STATE string level string

text \<open>\<^verbatim>\<open>URLRequest\<close>; its \<^verbatim>\<open>method\<close> is the field \<open>http_method\<close>.\<close>

record url_request =
  contentType :: string
  body :: "bytes option"
  http_method :: string
  requestHeaders :: "(string \<times> string) list"
  url :: string

definition new_URLRequest :: "string \<Rightarrow> url_request" where
  "new_URLRequest u =
     \<lparr>contentType = ''application/x-www-form-urlencoded'', body = None, http_method = ''GET'',
      requestHeaders = [], url = u\<rparr>"

text \<open>
  An \<^verbatim>\<open>XMLHttpRequest\<close> object. FileLoader registers exactly one of its methods under
  each event type (\<^verbatim>\<open>loadstart\<close>: onStart, \<^verbatim>\<open>abort\<close>: onClose, \<^verbatim>\<open>readystatechange\<close>:
  onHTTPStatus, \<^verbatim>\<open>error\<close>: onError, \<^verbatim>\<open>progress\<close>: onProgress, \<^verbatim>\<open>load\<close>: onComplete), so a
  listener entry is the event type with the identity of the function object that
  \<^verbatim>\<open>.bind(this)\<close> made. The value of the \<^verbatim>\<open>Range\<close> header is kept in structured form:
  \<open>Bytes_range a b\<close> is the string \<^verbatim>\<open>bytes=a-b\<close>.
\<close>

datatype dom_event =
  Ev_loadstart | Ev_abort | Ev_readystatechange | Ev_error | Ev_progress | Ev_load

datatype header_value = Str string | Bytes_range nat nat

record xmlhttprequest =
  listeners :: "(dom_event \<times> nat) list"
  open_args :: "(string \<times> string) option"
  headers :: "(string \<times> header_value) list"
  responseType :: string
  send_flag :: bool
  readyState :: nat
  status :: nat
  content_length :: "nat option"
  response :: "bytes option"

definition new_XMLHttpRequest :: xmlhttprequest where
  "new_XMLHttpRequest =
     \<lparr>listeners = [], open_args = None, headers = [], responseType = [], send_flag = False,
      readyState = 0, status = 0, content_length = None, response = None\<rparr>"

datatype window_event = Ev_online | Ev_offline

text \<open>
  The fields of FileLoader (\<^verbatim>\<open>_state\<close> \<dots> \<^verbatim>\<open>_active_disconnect\<close>; \<open>xhr\<close> and \<open>loader\<close> are
  references into \<open>heap\<close>), followed by the environment: the store of request
  objects, the listeners of \<^verbatim>\<open>window\<close>, the next fresh function identity and the
  notifications emitted so far.
\<close>

record world =
  state :: nat
  loaded :: nat
  total :: total
  data :: "bytes option"
  dataFormat :: string
  timeout :: nat
  xhr :: "nat option"
  loader :: "nat option"
  request :: "url_request option"
  active_disconnect :: bool
  heap :: "xmlhttprequest list"
  window :: "(window_event \<times> nat) list"
  next_ref :: nat
  emitted :: "notification list"

section \<open>Browser primitives\<close>

definition emit :: "notification \<Rightarrow> world \<Rightarrow> world" where
  "emit n w = w\<lparr>emitted := emitted w @ [n]\<rparr>"

definition upd :: "nat \<Rightarrow> (xmlhttprequest \<Rightarrow> xmlhttprequest) \<Rightarrow> world \<Rightarrow> world" where
  "upd x f w = w\<lparr>heap := (heap w)[x := f (heap w ! x)]\<rparr>"

text \<open>
  \<^verbatim>\<open>target.addEventListener(type, this[m].bind(this), false)\<close>: every evaluation of
  \<^verbatim>\<open>.bind\<close> creates a new function object, named by the counter.
\<close>

definition addEventListener :: "nat \<Rightarrow> dom_event \<Rightarrow> world \<Rightarrow> world" where
  "addEventListener x t w =
     (let f = next_ref w;
          w1 = w\<lparr>next_ref := Suc f\<rparr>
      in upd x (\<lambda>ob. ob\<lparr>listeners := listeners ob @ [(t, f)]\<rparr>) w1)"

text \<open>
  \<^verbatim>\<open>target.removeEventListener(type, this[m].bind(this), false)\<close> removes the entry
  whose type and function object both match; the function object passed is again
  a new one.
\<close>

definition removeEventListener :: "nat \<Rightarrow> dom_event \<Rightarrow> world \<Rightarrow> world" where
  "removeEventListener x t w =
     (let f = next_ref w;
          w1 = w\<lparr>next_ref := Suc f\<rparr>
      in upd x (\<lambda>ob. ob\<lparr>listeners := filter (\<lambda>l. l \<noteq> (t, f)) (listeners ob)\<rparr>) w1)"

definition window_addEventListener :: "window_event \<Rightarrow> world \<Rightarrow> world" where
  "window_addEventListener t w =
     (let f = next_ref w
      in w\<lparr>next_ref := Suc f, window := window w @ [(t, f)]\<rparr>)"

definition window_removeEventListener :: "window_event \<Rightarrow> world \<Rightarrow> world" where
  "window_removeEventListener t w =
     (let f = next_ref w
      in w\<lparr>next_ref := Suc f, window := filter (\<lambda>l. l \<noteq> (t, f)) (window w)\<rparr>)"

text \<open>
  \<^verbatim>\<open>open\<close>, \<^verbatim>\<open>setRequestHeader\<close>, \<^verbatim>\<open>send\<close> and \<^verbatim>\<open>abort\<close> of XMLHttpRequest, as the XHR
  standard defines them. \<^verbatim>\<open>open\<close> and \<^verbatim>\<open>abort\<close> fire \<^verbatim>\<open>readystatechange\<close> while
  \<^verbatim>\<open>status\<close> is 0; the listener onHTTPStatus returns at its first line then
  (lemma \<open>onHTTPStatus_status_0\<close> below), so that dispatch is not written out.
  \<^verbatim>\<open>send\<close> fires \<^verbatim>\<open>loadstart\<close>, \<^verbatim>\<open>abort\<close> fires \<^verbatim>\<open>abort\<close> on a request in flight.
\<close>

definition xhr_open :: "nat \<Rightarrow> string \<Rightarrow> string \<Rightarrow> world \<Rightarrow> world" where
  "xhr_open x m u w =
     upd x (\<lambda>ob. ob\<lparr>open_args := Some (m, u), headers := [], send_flag := False,
                    readyState := 1, status := 0, content_length := None,
                    response := None\<rparr>) w"

definition setRequestHeader :: "nat \<Rightarrow> string \<Rightarrow> header_value \<Rightarrow> world \<Rightarrow> world" where
  "setRequestHeader x n v w = upd x (\<lambda>ob. ob\<lparr>headers := headers ob @ [(n, v)]\<rparr>) w"

definition set_responseType :: "nat \<Rightarrow> string \<Rightarrow> world \<Rightarrow> world" where
  "set_responseType x v w = upd x (\<lambda>ob. ob\<lparr>responseType := v\<rparr>) w"

definition in_flight :: "xmlhttprequest \<Rightarrow> bool" where
  "in_flight ob = (send_flag ob \<and> (readyState ob = 1 \<or> readyState ob = 2 \<or> readyState ob = 3))"

definition getResponseHeader_Content_Length :: "xmlhttprequest \<Rightarrow> nat option" where
  "getResponseHeader_Content_Length ob =
     (if readyState ob < 2 then None else content_length ob)"

text \<open>How many listeners of an object are registered for an event type.\<close>

definition registered :: "dom_event \<Rightarrow> xmlhttprequest \<Rightarrow> nat" where
  "registered t ob = length (filter (\<lambda>l. fst l = t) (listeners ob))"

section \<open>FileLoader\<close>

definition reset :: "world \<Rightarrow> world" where
  "reset w =
     w\<lparr>state := 0, loaded := 0, total := Number 0, data := None, dataFormat := BINARY,
       timeout := 0, xhr := None, loader := None\<rparr>"

definition get_dataFormat :: "world \<Rightarrow> string" where
  "get_dataFormat w = dataFormat w"

definition set_dataFormat :: "string \<Rightarrow> world \<Rightarrow> world outcome" where
  "set_dataFormat v w = (if v \<noteq> BINARY then Inl (TypeError, w) else Inr w)"

definition set_timeout :: "nat \<Rightarrow> world \<Rightarrow> world" where
  "set_timeout v w = w"

definition onStart :: "world \<Rightarrow> world" where
  "onStart w = emit (START Lv_status) (w\<lparr>state := 1\<rparr>)"

definition onClose :: "world \<Rightarrow> world" where
  "onClose w =
     (if active_disconnect w then w\<lparr>active_disconnect := False\<rparr>
      else emit (CLOSE Lv_status (loaded w) (total w)) w)"

definition onError :: "world \<Rightarrow> world" where
  "onError w = emit (ERROR 1000 Lv_error ''network error'') w"

definition xhr_send :: "nat \<Rightarrow> world \<Rightarrow> world" where
  "xhr_send x w =
     (let w1 = upd x (\<lambda>ob. ob\<lparr>send_flag := True\<rparr>) w
      in (onStart ^^ registered Ev_loadstart (heap w ! x)) w1)"

definition xhr_abort :: "nat \<Rightarrow> world \<Rightarrow> world" where
  "xhr_abort x w =
     (let ob = heap w ! x
      in if in_flight ob then
           let w1 = upd x (\<lambda>ob. ob\<lparr>readyState := 4, status := 0, send_flag := False,
                                    response := None\<rparr>) w;
               w2 = (onClose ^^ registered Ev_abort ob) w1
           in upd x (\<lambda>ob. ob\<lparr>readyState := 0\<rparr>) w2
         else if readyState ob = 4 then
           upd x (\<lambda>ob. ob\<lparr>readyState := 0, status := 0, response := None\<rparr>) w
         else w)"

definition rline :: "world \<Rightarrow> world" where
  "rline w = window_removeEventListener Ev_offline (window_removeEventListener Ev_online w)"

definition aline :: "world \<Rightarrow> world" where
  "aline w =
     (if state w \<noteq> 3 then w
      else window_addEventListener Ev_offline (window_addEventListener Ev_online w))"

text \<open>
  \<^verbatim>\<open>abort()\<close>: both sessions are aborted, and for each listener added by \<^verbatim>\<open>initialize\<close>
  or \<^verbatim>\<open>slice\<close> a \<^verbatim>\<open>removeEventListener\<close> call is made.
\<close>

definition abort :: "world \<Rightarrow> world" where
  "abort w =
     (let w1 = rline w;
          w2 = (case xhr w1 of
                  None \<Rightarrow> w1
                | Some x \<Rightarrow>
                    removeEventListener x Ev_error
                      (removeEventListener x Ev_readystatechange
                        (removeEventListener x Ev_abort
                          (removeEventListener x Ev_loadstart (xhr_abort x w1)))))
      in case loader w2 of
           None \<Rightarrow> w2
         | Some l \<Rightarrow>
             removeEventListener l Ev_readystatechange
               (removeEventListener l Ev_abort
                 (removeEventListener l Ev_progress
                   (removeEventListener l Ev_load (xhr_abort l w2)))))"

definition initialize :: "url_request option \<Rightarrow> world \<Rightarrow> world" where
  "initialize r w =
     (let w1 = (reset w)\<lparr>request := r\<rparr>;
          x = length (heap w1);
          w2 = w1\<lparr>heap := heap w1 @ [new_XMLHttpRequest], xhr := Some x\<rparr>
      in addEventListener x Ev_error
           (addEventListener x Ev_readystatechange
             (addEventListener x Ev_abort
               (addEventListener x Ev_loadstart w2))))"

text \<open>
  The page before the loader exists: no request object, no listener on
  \<^verbatim>\<open>window\<close>, nothing emitted; \<^verbatim>\<open>_active_disconnect\<close> is still undefined, which
  \<^verbatim>\<open>onClose\<close> reads as false.
\<close>

definition page :: world where
  "page =
     \<lparr>state = 0, loaded = 0, total = Number 0, data = None, dataFormat = [], timeout = 0,
      xhr = None, loader = None, request = None, active_disconnect = False, heap = [],
      window = [], next_ref = 0, emitted = []\<rparr>"

definition new_FileLoader :: "url_request option \<Rightarrow> world" where
  "new_FileLoader r = initialize r page"

text \<open>
  \<^verbatim>\<open>load(request)\<close>. The \<^verbatim>\<open>try\<close> block throws when \<^verbatim>\<open>_xhr\<close> or \<^verbatim>\<open>_request\<close> is null, and
  the \<^verbatim>\<open>catch\<close> turns that into the TypeError of \<^verbatim>\<open>load\<close>. A request whose method, URL
  or header names the browser rejects is not modelled.
\<close>

definition load :: "url_request option \<Rightarrow> world \<Rightarrow> world outcome" where
  "load r w =
     (let w1 = (case r of None \<Rightarrow> w | Some q \<Rightarrow> w\<lparr>request := Some q\<rparr>)
      in case xhr w1 of
           None \<Rightarrow> Inl (TypeError, w1)
         | Some x \<Rightarrow>
             (case request w1 of
                None \<Rightarrow> Inl (TypeError, w1)
              | Some q \<Rightarrow>
                  let w2 = xhr_open x (http_method q) (url q) w1;
                      w3 = set_responseType x ''arraybuffer'' w2;
                      w4 = fold (\<lambda>item. setRequestHeader x (fst item) (Str (snd item)))
                             (requestHeaders q) w3
                  in Inr (xhr_send x w4)))"

text \<open>
  \<^verbatim>\<open>slice()\<close>: a new request object for the 204800 bytes from \<^verbatim>\<open>bytesLoaded\<close> on. The read
  of \<^verbatim>\<open>this._request.method\<close> throws when \<^verbatim>\<open>_request\<close> is null, after the object and its
  listeners exist.
\<close>

definition slice :: "world \<Rightarrow> world outcome" where
  "slice w =
     (let w1 = w\<lparr>state := 3\<rparr>;
          l = length (heap w1);
          w2 = w1\<lparr>heap := heap w1 @ [new_XMLHttpRequest], loader := Some l\<rparr>;
          w3 = addEventListener l Ev_readystatechange
                 (addEventListener l Ev_load
                   (addEventListener l Ev_abort
                     (addEventListener l Ev_progress w2)))
      in case request w3 of
           None \<Rightarrow> Inl (TypeError, w3)
         | Some q \<Rightarrow>
             let w4 = xhr_open l (http_method q) (url q) w3;
                 w5 = setRequestHeader l ''Content-Type'' (Str ''application/octet-stream'') w4;
                 w6 = setRequestHeader l ''Range''
                        (Bytes_range (loaded w5) (loaded w5 + 204799)) w5;
                 w7 = set_responseType l ''arraybuffer'' w6
             in Inr (xhr_send l w7))"

text \<open>The request object a successful \<^verbatim>\<open>slice\<close> leaves in the store.\<close>

definition chunk_request :: "url_request \<Rightarrow> nat \<Rightarrow> nat \<Rightarrow> xmlhttprequest" where
  "chunk_request q n f =
     \<lparr>listeners = [(Ev_progress, f), (Ev_abort, Suc f), (Ev_load, Suc (Suc f)),
                   (Ev_readystatechange, Suc (Suc (Suc f)))],
      open_args = Some (http_method q, url q),
      headers = [(''Content-Type'', Str ''application/octet-stream''),
                 (''Range'', Bytes_range n (n + 204799))],
      responseType = ''arraybuffer'', send_flag = True, readyState = 1, status = 0,
      content_length = None, response = None\<rparr>"

definition close :: "world \<Rightarrow> world" where
  "close w = reset (abort w)"

definition pause :: "world \<Rightarrow> world" where
  "pause w = (if state w \<noteq> 3 then w else abort (w\<lparr>active_disconnect := True\<rparr>))"

definition resume :: "world \<Rightarrow> world outcome" where
  "resume w = (if state w \<noteq> 3 then Inr w else slice w)"

text \<open>\<^verbatim>\<open>onHTTPStatus(evt)\<close>; \<open>x\<close> is \<^verbatim>\<open>evt.target\<close>.\<close>

definition onHTTPStatus :: "nat \<Rightarrow> world \<Rightarrow> world outcome" where
  "onHTTPStatus x w =
     (let ob = heap w ! x
      in if status ob = 0 then Inr w
         else if readyState ob = 2 then
           let w1 = (if state w < 2 then w\<lparr>state := 2\<rparr> else w)
           in if status ob \<ge> 400 then
                Inr (emit (ERROR (status ob) Lv_error
                            (if status ob \<ge> 500 then ''server error'' else ''request error''))
                      (rline w1))
              else if state w1 \<ge> 3 then Inr w1
              else
                (case xhr w1 of
                   None \<Rightarrow> Inl (TypeError, w1)
                 | Some h \<Rightarrow>
                     let w2 = w1\<lparr>total := Header (getResponseHeader_Content_Length (heap w1 ! h))\<rparr>
                     in if \<not> truthy (total w2) then
                          Inr (emit (ERROR 1001 Lv_error ''unable to get file size'') w2)
                        else
                          (case slice (abort (w2\<lparr>active_disconnect := True\<rparr>)) of
                             Inl e \<Rightarrow> Inl e
                           | Inr w3 \<Rightarrow> Inr (aline w3)))
         else Inr w)"

text \<open>\<^verbatim>\<open>onProgress(evt)\<close>; \<open>n\<close> is \<^verbatim>\<open>evt.loaded\<close>.\<close>

definition onProgress :: "nat \<Rightarrow> world \<Rightarrow> world outcome" where
  "onProgress n w =
     (case loader w of
        None \<Rightarrow> Inl (TypeError, w)
      | Some l \<Rightarrow>
          let ob = heap w ! l
          in if readyState ob < 2 then Inr w
             else if status ob \<ge> 400 then Inr w
             else Inr (emit (PROGRESS Lv_status (loaded w + n) (total w)) w))"

text \<open>
  \<^verbatim>\<open>TypedArray.prototype.set(source, offset)\<close>: a RangeError when the source does not
  fit, otherwise the elements from \<open>offset\<close> on are overwritten.
\<close>

definition typed_set :: "bytes \<Rightarrow> bytes \<Rightarrow> nat \<Rightarrow> error + bytes" where
  "typed_set temp src off =
     (if off + length src > length temp then Inl RangeError
      else Inr (take off temp @ src @ drop (off + length src) temp))"

text \<open>
  Lines 356 to 359 of \<^verbatim>\<open>onComplete\<close>: a zeroed \<^verbatim>\<open>Int8Array\<close> of \<open>n + length resp\<close>
  elements, the old buffer copied to offset 0 when \<^verbatim>\<open>this.data\<close> is not null, the
  response copied to offset \<open>n\<close>.
\<close>

definition assemble :: "bytes option \<Rightarrow> nat \<Rightarrow> bytes \<Rightarrow> error + bytes" where
  "assemble d n resp =
     (let temp = replicate (n + length resp) 0
      in case (case d of None \<Rightarrow> Inr temp | Some b \<Rightarrow> typed_set temp b 0) of
           Inl e \<Rightarrow> Inl e
         | Inr temp1 \<Rightarrow> typed_set temp1 resp n)"

definition onComplete :: "world \<Rightarrow> world outcome" where
  "onComplete w =
     (case loader w of
        None \<Rightarrow> Inr w
      | Some l \<Rightarrow>
          if status (heap w ! l) < 400 then
            (case response (heap w ! l) of
               None \<Rightarrow> Inl (TypeError, w)
             | Some resp \<Rightarrow>
                 (case assemble (data w) (loaded w) resp of
                    Inl e \<Rightarrow> Inl (e, w)
                  | Inr temp \<Rightarrow>
                      let w1 = w\<lparr>data := Some temp, loaded := length temp\<rparr>
                      in if loaded w1 < to_number (total w1) then slice w1
                         else Inr (emit (COMPLETE Lv_status temp) (rline (w1\<lparr>state := 4\<rparr>)))))
          else Inr w)"

definition online :: "world \<Rightarrow> world outcome" where
  "online w =
     (if state w = 3 then
        (case slice w of
           Inl e \<Rightarrow> Inl e
         | Inr w1 \<Rightarrow> Inr (emit (NETWORK_STATE ''online'' Lv_status ''network recovery'') w1))
      else Inr w)"

definition offline :: "world \<Rightarrow> world" where
  "offline w = emit (NETWORK_STATE ''offline'' Lv_warning ''network disconnection'') w"

section \<open>Events delivered to the loader\<close>

text \<open>
  An exception that leaves a listener or a public method ends that call only; the
  loader keeps the state it had at the throw.
\<close>

fun settle :: "world outcome \<Rightarrow> world" where
  "settle (Inl (e, w)) = w"
| "settle (Inr w) = w"

text \<open>
  The method FileLoader bound for an event type, called for an event on object
  \<open>x\<close> whose \<^verbatim>\<open>loaded\<close> field is \<open>n\<close>.
\<close>

fun handle :: "dom_event \<Rightarrow> nat \<Rightarrow> nat \<Rightarrow> world \<Rightarrow> world" where
  "handle Ev_loadstart x n w = onStart w"
| "handle Ev_abort x n w = onClose w"
| "handle Ev_readystatechange x n w = settle (onHTTPStatus x w)"
| "handle Ev_error x n w = onError w"
| "handle Ev_progress x n w = settle (onProgress n w)"
| "handle Ev_load x n w = settle (onComplete w)"

text \<open>Dispatch to the listeners the object has when the event is fired.\<close>

definition fire :: "dom_event \<Rightarrow> nat \<Rightarrow> nat \<Rightarrow> world \<Rightarrow> world" where
  "fire t x n w = (handle t x n ^^ registered t (heap w ! x)) w"

definition window_registered :: "window_event \<Rightarrow> world \<Rightarrow> nat" where
  "window_registered t w = length (filter (\<lambda>l. fst l = t) (window w))"

text \<open>
  What can happen to a loader: a call of its public interface, a step of the
  response of one of its requests (headers received with a status and a
  Content-Length header, body loading, a progress report, the end of the body, a
  network failure), or a connectivity signal on \<^verbatim>\<open>window\<close>. A response step is taken
  only in the request state the XHR standard allows it in.
\<close>

datatype input =
    Call_load "url_request option"
  | Call_close
  | Call_pause
  | Call_resume
  | Assign_dataFormat string
  | Xhr_headers nat nat "nat option"
  | Xhr_loading nat
  | Xhr_progress nat nat
  | Xhr_done nat bytes
  | Xhr_error nat
  | Window_online
  | Window_offline

fun step :: "input \<Rightarrow> world \<Rightarrow> world" where
  "step (Call_load r) w = settle (load r w)"
| "step Call_close w = close w"
| "step Call_pause w = pause w"
| "step Call_resume w = settle (resume w)"
| "step (Assign_dataFormat v) w = settle (set_dataFormat v w)"
| "step (Xhr_headers x st cl) w =
     (if x < length (heap w) \<and> send_flag (heap w ! x) \<and> readyState (heap w ! x) = 1 then
        fire Ev_readystatechange x 0
          (upd x (\<lambda>ob. ob\<lparr>readyState := 2, status := st, content_length := cl\<rparr>) w)
      else w)"
| "step (Xhr_loading x) w =
     (if x < length (heap w) \<and> send_flag (heap w ! x) \<and>
         (readyState (heap w ! x) = 2 \<or> readyState (heap w ! x) = 3) then
        fire Ev_readystatechange x 0 (upd x (\<lambda>ob. ob\<lparr>readyState := 3\<rparr>) w)
      else w)"
| "step (Xhr_progress x n) w =
     (if x < length (heap w) \<and> send_flag (heap w ! x) \<and> readyState (heap w ! x) = 3 then
        fire Ev_progress x n w
      else w)"
| "step (Xhr_done x resp) w =
     (if x < length (heap w) \<and> send_flag (heap w ! x) \<and>
         (readyState (heap w ! x) = 2 \<or> readyState (heap w ! x) = 3) then
        fire Ev_load x (length resp)
          (fire Ev_readystatechange x 0
            (upd x (\<lambda>ob. ob\<lparr>readyState := 4, send_flag := False, response := Some resp\<rparr>) w))
      else w)"
| "step (Xhr_error x) w =
     (if x < length (heap w) \<and> in_flight (heap w ! x) then
        fire Ev_error x 0
          (fire Ev_readystatechange x 0
            (upd x (\<lambda>ob. ob\<lparr>readyState := 4, status := 0, send_flag := False,
                           response := None\<rparr>) w))
      else w)"
| "step Window_online w = ((\<lambda>v. settle (online v)) ^^ window_registered Ev_online w) w"
| "step Window_offline w = (offline ^^ window_registered Ev_offline w) w"

definition run :: "input list \<Rightarrow> world \<Rightarrow> world" where
  "run ins w = fold step ins w"

section \<open>A server that honours Range, and the chunk loop driven by it\<close>

text \<open>
  The requested range of a request object, and the answer of a server holding the
  resource \<open>res\<close>: status 206 with the bytes of the range that exist (the end is
  clipped to the resource), status 416 when the range starts behind the last byte,
  status 200 with the whole resource when no range is asked for.
\<close>

fun range_of :: "(string \<times> header_value) list \<Rightarrow> (nat \<times> nat) option" where
  "range_of [] = None"
| "range_of ((n, Bytes_range a b) # hs) = (if n = ''Range'' then Some (a, b) else range_of hs)"
| "range_of ((n, Str v) # hs) = range_of hs"

definition serve :: "bytes \<Rightarrow> (nat \<times> nat) option \<Rightarrow> nat \<times> bytes" where
  "serve res r =
     (case r of
        None \<Rightarrow> (200, res)
      | Some (a, b) \<Rightarrow>
          if a < length res then (206, take (b + 1 - a) (drop a res)) else (416, []))"

text \<open>The server answers the request of the current chunk session completely.\<close>

definition answer :: "bytes \<Rightarrow> world \<Rightarrow> world" where
  "answer res w =
     (case loader w of
        None \<Rightarrow> w
      | Some l \<Rightarrow>
          let (st, chunk) = serve res (range_of (headers (heap w ! l)))
          in step (Xhr_done l chunk) (step (Xhr_headers l st (Some (length chunk))) w))"

fun cycles :: "nat \<Rightarrow> world \<Rightarrow> world" where
  "cycles 0 w = w"
| "cycles (Suc k) w = cycles k (step Call_resume (step Call_pause w))"

text \<open>
  One round per list element: \<open>k\<close> times pause and resume, then the answer to the
  chunk request. The rounds stop when the loader has left state 3.
\<close>

fun drive :: "bytes \<Rightarrow> nat list \<Rightarrow> world \<Rightarrow> world" where
  "drive res [] w = w"
| "drive res (k # ks) w = (if state w = 3 then drive res ks (answer res (cycles k w)) else w)"

text \<open>
  A transfer from its start: the loader is created and loaded, the server answers
  the header request with status 200 and the length of the resource.
\<close>

definition discover :: "url_request \<Rightarrow> nat option \<Rightarrow> world" where
  "discover q cl = step (Xhr_headers 0 200 cl) (step (Call_load None) (new_FileLoader (Some q)))"

definition transfer :: "url_request \<Rightarrow> bytes \<Rightarrow> nat list \<Rightarrow> world" where
  "transfer q res ks = drive res ks (discover q (Some (length res)))"

text \<open>The ranges of the chunk requests made so far, oldest first.\<close>

definition ranges :: "world \<Rightarrow> (nat \<times> nat) list" where
  "ranges w = List.map_filter range_of (map headers (heap w))"

section \<open>URLLoader: the whole resource in one request\<close>

text \<open>
  \<^verbatim>\<open>URLLoader.onComplete\<close> for a response that is an \<^verbatim>\<open>ArrayBuffer\<close>: every case of the
  switch on \<^verbatim>\<open>dataFormat\<close> stores the response (the JSON case because the response
  is not a string), any other format leaves \<^verbatim>\<open>data\<close> alone; then COMPLETE is emitted
  with \<^verbatim>\<open>this.data\<close>.
\<close>

record url_loader =
  u_data :: "bytes option"
  u_dataFormat :: string
  u_emitted :: "bytes option list"

definition url_reset :: url_loader where
  "url_reset = \<lparr>u_data = None, u_dataFormat = TEXT, u_emitted = []\<rparr>"

definition url_onComplete :: "nat \<Rightarrow> bytes \<Rightarrow> url_loader \<Rightarrow> url_loader" where
  "url_onComplete st resp u =
     (if st \<ge> 400 then u
      else
        let u1 = (if u_dataFormat u = BINARY then u\<lparr>u_data := Some resp\<rparr>
                  else if u_dataFormat u = TEXT \<or> u_dataFormat u = DOCUMENT then
                    u\<lparr>u_data := Some resp\<rparr>
                  else if u_dataFormat u = JSON then u\<lparr>u_data := Some resp\<rparr>
                  else u)
        in u1\<lparr>u_emitted := u_emitted u1 @ [u_data u1]\<rparr>)"

definition whole_fetch :: "bytes \<Rightarrow> url_loader" where
  "whole_fetch res =
     (let (st, resp) = serve res None
      in url_onComplete st resp (url_reset\<lparr>u_dataFormat := BINARY\<rparr>))"

section \<open>States of the example and invariants\<close>

text \<open>
  The request object of the header session once \<^verbatim>\<open>load()\<close> has opened and sent it,
  and the request of the README's example.
\<close>

definition header_request :: "url_request \<Rightarrow> xmlhttprequest" where
  "header_request q =
     \<lparr>listeners = [(Ev_loadstart, 0), (Ev_abort, 1), (Ev_readystatechange, 2), (Ev_error, 3)],
      open_args = Some (http_method q, url q),
      headers = map (\<lambda>item. (fst item, Str (snd item))) (requestHeaders q),
      responseType = ''arraybuffer'', send_flag = True, readyState = 1, status = 0,
      content_length = None, response = None\<rparr>"

definition test_zip :: url_request where
  "test_zip = new_URLRequest ''http://127.0.0.1/test.zip''"

text \<open>
  The assembled buffer as a byte list (\<^verbatim>\<open>null\<close> holds no bytes), and the condition that
  \<^verbatim>\<open>bytesLoaded\<close> is its length.
\<close>

definition buffer :: "world \<Rightarrow> bytes" where
  "buffer w = (case data w of None \<Rightarrow> [] | Some d \<Rightarrow> d)"

definition consistent :: "world \<Rightarrow> bool" where
  "consistent w = (case data w of None \<Rightarrow> loaded w = 0 | Some d \<Rightarrow> length d = loaded w)"

text \<open>
  The example with \<open>n\<close> bytes announced, at the moment the first chunk session has
  received a response of three bytes and its \<^verbatim>\<open>load\<close> listener is about to run.
\<close>

definition got_chunk :: "nat \<Rightarrow> world" where
  "got_chunk n =
     upd 1 (\<lambda>ob. ob\<lparr>readyState := 4, send_flag := False, status := 206,
                    response := Some [1, 2, 3]\<rparr>)
       (discover test_zip (Some n))"

text \<open>
  The notifications a transfer without a known size must not produce: PROGRESS,
  COMPLETE and a further ERROR 1001. \<open>stalled\<close> describes the loader from the ERROR
  1001 on: the header session is the only request object, it has the listeners of
  \<^verbatim>\<open>initialize\<close>, no Range header and is past the opened state; there is no chunk
  session, the state is not 3 and \<^verbatim>\<open>window\<close> has no listener.
\<close>

fun watched :: "notification \<Rightarrow> bool" where
  "watched (PROGRESS l n t) = True"
| "watched (COMPLETE l b) = True"
| "watched (ERROR c l d) = (c = 1001)"
| "watched (START l) = False"
| "watched (CLOSE l n t) = False"
| "watched (NETWORK_STATE c l d) = False"

definition stalled :: "world \<Rightarrow> bool" where
  "stalled w =
     (loader w = None \<and> state w \<noteq> 3 \<and> window w = [] \<and> 4 \<le> next_ref w \<and>
      (xhr w = None \<or> xhr w = Some 0) \<and>
      (\<exists>ob. heap w = [ob] \<and>
         listeners ob =
           [(Ev_loadstart, 0), (Ev_abort, 1), (Ev_readystatechange, 2), (Ev_error, 3)] \<and>
         range_of (headers ob) = None \<and> \<not> (send_flag ob \<and> readyState ob = 1)))"

text \<open>
  The chunk loop on a resource \<open>res\<close>: in state 3 with the total known, the buffer
  is the first \<^verbatim>\<open>bytesLoaded\<close> bytes of the resource, the header session is not in
  flight and the current chunk session is the request \<^verbatim>\<open>slice\<close> made for the range
  starting at \<^verbatim>\<open>bytesLoaded\<close>. \<open>finished\<close> is the end of the loop.
\<close>

definition chunking :: "bytes \<Rightarrow> url_request \<Rightarrow> world \<Rightarrow> bool" where
  "chunking res q w =
     (state w = 3 \<and> request w = Some q \<and> total w = Header (Some (length res)) \<and>
      loaded w < length res \<and> buffer w = take (loaded w) res \<and> consistent w \<and>
      (\<exists>h l f. xhr w = Some h \<and> loader w = Some l \<and> h < length (heap w) \<and>
         l < length (heap w) \<and> h \<noteq> l \<and> \<not> in_flight (heap w ! h) \<and>
         heap w ! l = chunk_request q (loaded w) f))"

definition finished :: "bytes \<Rightarrow> world \<Rightarrow> bool" where
  "finished res w =
     (state w = 4 \<and> data w = Some res \<and> loaded w = length res \<and>
      total w = Header (Some (length res)))"

text \<open>
  An empty resource: every chunk request gets status 416 and an empty body, and the
  loader stays in state 3 with nothing loaded.
\<close>

definition answered :: "xmlhttprequest \<Rightarrow> xmlhttprequest" where
  "answered ob =
     ob\<lparr>readyState := 4, send_flag := False, status := 416, content_length := Some 0,
        response := Some []\<rparr>"

definition refused :: "url_request \<Rightarrow> world \<Rightarrow> bool" where
  "refused q w =
     (state w = 3 \<and> request w = Some q \<and> loaded w = 0 \<and> total w = Header (Some 0) \<and>
      (\<exists>l n f. loader w = Some l \<and> l < length (heap w) \<and>
         (heap w ! l = chunk_request q n f \<or> heap w ! l = answered (chunk_request q n f))))"

section \<open>Which fields each operation leaves alone\<close>

lemma funpow_keeps: "(\<And>v. g (f v) = g v) \<Longrightarrow> g ((f ^^ n) w) = g w"
  by (induction n) simp_all

lemma upd_fields [simp]:
  "state (upd x f w) = state w" "loaded (upd x f w) = loaded w" "total (upd x f w) = total w"
  "data (upd x f w) = data w" "dataFormat (upd x f w) = dataFormat w"
  "xhr (upd x f w) = xhr w" "loader (upd x f w) = loader w" "request (upd x f w) = request w"
  "active_disconnect (upd x f w) = active_disconnect w" "window (upd x f w) = window w"
  "next_ref (upd x f w) = next_ref w" "emitted (upd x f w) = emitted w"
  "heap (upd x f w) = (heap w)[x := f (heap w ! x)]"
  by (simp_all add: upd_def)

lemma emit_fields [simp]:
  "state (emit n w) = state w" "loaded (emit n w) = loaded w" "total (emit n w) = total w"
  "data (emit n w) = data w" "dataFormat (emit n w) = dataFormat w"
  "xhr (emit n w) = xhr w" "loader (emit n w) = loader w" "request (emit n w) = request w"
  "active_disconnect (emit n w) = active_disconnect w" "window (emit n w) = window w"
  "next_ref (emit n w) = next_ref w" "emitted (emit n w) = emitted w @ [n]"
  "heap (emit n w) = heap w"
  by (simp_all add: emit_def)

lemma listener_fields [simp]:
  "state (addEventListener x t w) = state w" "loaded (addEventListener x t w) = loaded w"
  "total (addEventListener x t w) = total w" "data (addEventListener x t w) = data w"
  "dataFormat (addEventListener x t w) = dataFormat w" "xhr (addEventListener x t w) = xhr w"
  "loader (addEventListener x t w) = loader w" "request (addEventListener x t w) = request w"
  "active_disconnect (addEventListener x t w) = active_disconnect w"
  "window (addEventListener x t w) = window w" "emitted (addEventListener x t w) = emitted w"
  "state (removeEventListener x t w) = state w" "loaded (removeEventListener x t w) = loaded w"
  "total (removeEventListener x t w) = total w" "data (removeEventListener x t w) = data w"
  "dataFormat (removeEventListener x t w) = dataFormat w" "xhr (removeEventListener x t w) = xhr w"
  "loader (removeEventListener x t w) = loader w" "request (removeEventListener x t w) = request w"
  "active_disconnect (removeEventListener x t w) = active_disconnect w"
  "window (removeEventListener x t w) = window w" "emitted (removeEventListener x t w) = emitted w"
  by (simp_all add: addEventListener_def removeEventListener_def Let_def)

lemma window_listener_fields [simp]:
  "state (window_addEventListener t w) = state w" "loaded (window_addEventListener t w) = loaded w"
  "total (window_addEventListener t w) = total w" "data (window_addEventListener t w) = data w"
  "dataFormat (window_addEventListener t w) = dataFormat w" "xhr (window_addEventListener t w) = xhr w"
  "loader (window_addEventListener t w) = loader w" "request (window_addEventListener t w) = request w"
  "active_disconnect (window_addEventListener t w) = active_disconnect w"
  "heap (window_addEventListener t w) = heap w" "emitted (window_addEventListener t w) = emitted w"
  "state (window_removeEventListener t w) = state w" "loaded (window_removeEventListener t w) = loaded w"
  "total (window_removeEventListener t w) = total w" "data (window_removeEventListener t w) = data w"
  "dataFormat (window_removeEventListener t w) = dataFormat w" "xhr (window_removeEventListener t w) = xhr w"
  "loader (window_removeEventListener t w) = loader w" "request (window_removeEventListener t w) = request w"
  "active_disconnect (window_removeEventListener t w) = active_disconnect w"
  "heap (window_removeEventListener t w) = heap w" "emitted (window_removeEventListener t w) = emitted w"
  by (simp_all add: window_addEventListener_def window_removeEventListener_def Let_def)

lemma xhr_setup_fields [simp]:
  "state (xhr_open x m u w) = state w" "loaded (xhr_open x m u w) = loaded w"
  "total (xhr_open x m u w) = total w" "data (xhr_open x m u w) = data w"
  "dataFormat (xhr_open x m u w) = dataFormat w" "xhr (xhr_open x m u w) = xhr w"
  "loader (xhr_open x m u w) = loader w" "request (xhr_open x m u w) = request w"
  "active_disconnect (xhr_open x m u w) = active_disconnect w"
  "window (xhr_open x m u w) = window w" "emitted (xhr_open x m u w) = emitted w"
  "next_ref (xhr_open x m u w) = next_ref w"
  "state (setRequestHeader x n v w) = state w" "loaded (setRequestHeader x n v w) = loaded w"
  "total (setRequestHeader x n v w) = total w" "data (setRequestHeader x n v w) = data w"
  "dataFormat (setRequestHeader x n v w) = dataFormat w" "xhr (setRequestHeader x n v w) = xhr w"
  "loader (setRequestHeader x n v w) = loader w" "request (setRequestHeader x n v w) = request w"
  "active_disconnect (setRequestHeader x n v w) = active_disconnect w"
  "window (setRequestHeader x n v w) = window w" "emitted (setRequestHeader x n v w) = emitted w"
  "next_ref (setRequestHeader x n v w) = next_ref w"
  "state (set_responseType x s w) = state w" "loaded (set_responseType x s w) = loaded w"
  "total (set_responseType x s w) = total w" "data (set_responseType x s w) = data w"
  "dataFormat (set_responseType x s w) = dataFormat w" "xhr (set_responseType x s w) = xhr w"
  "loader (set_responseType x s w) = loader w" "request (set_responseType x s w) = request w"
  "active_disconnect (set_responseType x s w) = active_disconnect w"
  "window (set_responseType x s w) = window w" "emitted (set_responseType x s w) = emitted w"
  "next_ref (set_responseType x s w) = next_ref w"
  by (simp_all add: xhr_open_def setRequestHeader_def set_responseType_def)

lemma onStart_fields [simp]:
  "state (onStart w) = 1" "loaded (onStart w) = loaded w" "total (onStart w) = total w"
  "data (onStart w) = data w" "dataFormat (onStart w) = dataFormat w"
  "xhr (onStart w) = xhr w" "loader (onStart w) = loader w" "request (onStart w) = request w"
  "active_disconnect (onStart w) = active_disconnect w" "window (onStart w) = window w"
  "next_ref (onStart w) = next_ref w" "heap (onStart w) = heap w"
  "emitted (onStart w) = emitted w @ [START Lv_status]"
  by (simp_all add: onStart_def)

lemma onClose_fields [simp]:
  "state (onClose w) = state w" "loaded (onClose w) = loaded w" "total (onClose w) = total w"
  "data (onClose w) = data w" "dataFormat (onClose w) = dataFormat w"
  "xhr (onClose w) = xhr w" "loader (onClose w) = loader w" "request (onClose w) = request w"
  "window (onClose w) = window w"
  "next_ref (onClose w) = next_ref w" "heap (onClose w) = heap w"
  by (simp_all add: onClose_def)

lemma onError_fields [simp]:
  "state (onError w) = state w" "loaded (onError w) = loaded w" "total (onError w) = total w"
  "data (onError w) = data w" "dataFormat (onError w) = dataFormat w"
  "xhr (onError w) = xhr w" "loader (onError w) = loader w" "request (onError w) = request w"
  "active_disconnect (onError w) = active_disconnect w" "window (onError w) = window w"
  "next_ref (onError w) = next_ref w" "heap (onError w) = heap w"
  by (simp_all add: onError_def)

lemma onClose_pow_fields [simp]:
  "state ((onClose ^^ k) w) = state w" "loaded ((onClose ^^ k) w) = loaded w"
  "total ((onClose ^^ k) w) = total w" "data ((onClose ^^ k) w) = data w"
  "dataFormat ((onClose ^^ k) w) = dataFormat w" "xhr ((onClose ^^ k) w) = xhr w"
  "loader ((onClose ^^ k) w) = loader w" "request ((onClose ^^ k) w) = request w"
  "window ((onClose ^^ k) w) = window w" "next_ref ((onClose ^^ k) w) = next_ref w"
  "heap ((onClose ^^ k) w) = heap w"
  by (simp_all add: funpow_keeps)

lemma onStart_pow_fields [simp]:
  "loaded ((onStart ^^ k) w) = loaded w"
  "total ((onStart ^^ k) w) = total w" "data ((onStart ^^ k) w) = data w"
  "dataFormat ((onStart ^^ k) w) = dataFormat w" "xhr ((onStart ^^ k) w) = xhr w"
  "loader ((onStart ^^ k) w) = loader w" "request ((onStart ^^ k) w) = request w"
  "active_disconnect ((onStart ^^ k) w) = active_disconnect w"
  "window ((onStart ^^ k) w) = window w" "next_ref ((onStart ^^ k) w) = next_ref w"
  "heap ((onStart ^^ k) w) = heap w"
  by (simp_all add: funpow_keeps)

lemma xhr_send_fields [simp]:
  "loaded (xhr_send x w) = loaded w" "total (xhr_send x w) = total w"
  "data (xhr_send x w) = data w" "dataFormat (xhr_send x w) = dataFormat w"
  "xhr (xhr_send x w) = xhr w" "loader (xhr_send x w) = loader w"
  "request (xhr_send x w) = request w" "window (xhr_send x w) = window w"
  "active_disconnect (xhr_send x w) = active_disconnect w"
  "next_ref (xhr_send x w) = next_ref w"
  "heap (xhr_send x w) = (heap w)[x := (heap w ! x)\<lparr>send_flag := True\<rparr>]"
  by (simp_all add: xhr_send_def Let_def)

lemma xhr_abort_fields [simp]:
  "state (xhr_abort x w) = state w" "loaded (xhr_abort x w) = loaded w"
  "total (xhr_abort x w) = total w" "data (xhr_abort x w) = data w"
  "dataFormat (xhr_abort x w) = dataFormat w" "xhr (xhr_abort x w) = xhr w"
  "loader (xhr_abort x w) = loader w" "request (xhr_abort x w) = request w"
  "window (xhr_abort x w) = window w" "next_ref (xhr_abort x w) = next_ref w"
  by (simp_all add: xhr_abort_def Let_def)

lemma rline_fields [simp]:
  "state (rline w) = state w" "loaded (rline w) = loaded w" "total (rline w) = total w"
  "data (rline w) = data w" "dataFormat (rline w) = dataFormat w"
  "xhr (rline w) = xhr w" "loader (rline w) = loader w" "request (rline w) = request w"
  "active_disconnect (rline w) = active_disconnect w" "heap (rline w) = heap w"
  "emitted (rline w) = emitted w"
  by (simp_all add: rline_def)

lemma aline_fields [simp]:
  "state (aline w) = state w" "loaded (aline w) = loaded w" "total (aline w) = total w"
  "data (aline w) = data w" "dataFormat (aline w) = dataFormat w"
  "xhr (aline w) = xhr w" "loader (aline w) = loader w" "request (aline w) = request w"
  "active_disconnect (aline w) = active_disconnect w" "heap (aline w) = heap w"
  "emitted (aline w) = emitted w"
  by (simp_all add: aline_def)

lemma abort_fields [simp]:
  "state (abort w) = state w" "loaded (abort w) = loaded w" "total (abort w) = total w"
  "data (abort w) = data w" "dataFormat (abort w) = dataFormat w"
  "xhr (abort w) = xhr w" "loader (abort w) = loader w" "request (abort w) = request w"
  by (simp_all add: abort_def Let_def split: option.splits)

lemma slice_Some:
  "request w = Some q \<Longrightarrow>
   slice w = Inr (w\<lparr>state := 3, loader := Some (length (heap w)),
                   heap := heap w @ [chunk_request q (loaded w) (next_ref w)],
                   next_ref := next_ref w + 4\<rparr>)"
  by (simp add: slice_def Let_def xhr_send_def registered_def addEventListener_def upd_def
      xhr_open_def setRequestHeader_def set_responseType_def new_XMLHttpRequest_def
      chunk_request_def)

lemma slice_None:
  "request w = None \<Longrightarrow>
   slice w = Inl (TypeError, w\<lparr>state := 3, loader := Some (length (heap w)),
                   heap := heap w @ [new_XMLHttpRequest\<lparr>listeners := listeners (chunk_request undefined 0 (next_ref w))\<rparr>],
                   next_ref := next_ref w + 4\<rparr>)"
  by (simp add: slice_def Let_def addEventListener_def upd_def
      new_XMLHttpRequest_def chunk_request_def)

lemma slice_fields [simp]:
  "state (settle (slice w)) = 3" "loaded (settle (slice w)) = loaded w"
  "total (settle (slice w)) = total w" "data (settle (slice w)) = data w"
  "dataFormat (settle (slice w)) = dataFormat w" "xhr (settle (slice w)) = xhr w"
  "loader (settle (slice w)) = Some (length (heap w))" "request (settle (slice w)) = request w"
  "active_disconnect (settle (slice w)) = active_disconnect w"
  "window (settle (slice w)) = window w" "emitted (settle (slice w)) = emitted w"
  by (cases "request w"; simp add: slice_Some slice_None)+

lemma onHTTPStatus_fields [simp]:
  "loaded (settle (onHTTPStatus x w)) = loaded w" "data (settle (onHTTPStatus x w)) = data w"
  "dataFormat (settle (onHTTPStatus x w)) = dataFormat w"
  "request (settle (onHTTPStatus x w)) = request w"
  by (cases "request w"; simp add: onHTTPStatus_def Let_def slice_Some slice_None
      split: option.splits)+

lemma onProgress_fields [simp]:
  "state (settle (onProgress n w)) = state w"
  "loaded (settle (onProgress n w)) = loaded w" "total (settle (onProgress n w)) = total w"
  "data (settle (onProgress n w)) = data w" "dataFormat (settle (onProgress n w)) = dataFormat w"
  "request (settle (onProgress n w)) = request w" "heap (settle (onProgress n w)) = heap w"
  "xhr (settle (onProgress n w)) = xhr w" "loader (settle (onProgress n w)) = loader w"
  by (simp_all add: onProgress_def Let_def split: option.splits)

lemma onComplete_fields [simp]:
  "total (settle (onComplete w)) = total w" "dataFormat (settle (onComplete w)) = dataFormat w"
  "request (settle (onComplete w)) = request w" "xhr (settle (onComplete w)) = xhr w"
  by (cases "request w"; simp add: onComplete_def Let_def slice_Some slice_None
      split: option.splits sum.splits)+

lemma online_fields [simp]:
  "loaded (settle (online w)) = loaded w" "total (settle (online w)) = total w"
  "data (settle (online w)) = data w" "dataFormat (settle (online w)) = dataFormat w"
  "request (settle (online w)) = request w" "xhr (settle (online w)) = xhr w"
  by (cases "request w"; simp add: online_def slice_Some slice_None)+

lemma offline_fields [simp]:
  "state (offline w) = state w"
  "loaded (offline w) = loaded w" "total (offline w) = total w"
  "data (offline w) = data w" "dataFormat (offline w) = dataFormat w"
  "request (offline w) = request w" "xhr (offline w) = xhr w" "loader (offline w) = loader w"
  "heap (offline w) = heap w"
  by (simp_all add: offline_def)

lemma fold_keeps: "(\<And>a v. g (f a v) = g v) \<Longrightarrow> g (fold f xs w) = g w"
  by (induction xs arbitrary: w) simp_all

lemma load_fields [simp]:
  "loaded (settle (load r w)) = loaded w" "total (settle (load r w)) = total w"
  "data (settle (load r w)) = data w" "dataFormat (settle (load r w)) = dataFormat w"
  "xhr (settle (load r w)) = xhr w" "loader (settle (load r w)) = loader w"
  by (simp_all add: load_def Let_def fold_keeps split: option.splits)

lemma pause_fields [simp]:
  "state (pause w) = state w" "loaded (pause w) = loaded w" "total (pause w) = total w"
  "data (pause w) = data w" "dataFormat (pause w) = dataFormat w"
  "xhr (pause w) = xhr w" "loader (pause w) = loader w" "request (pause w) = request w"
  by (simp_all add: pause_def)

lemma resume_fields [simp]:
  "loaded (settle (resume w)) = loaded w" "total (settle (resume w)) = total w"
  "data (settle (resume w)) = data w" "dataFormat (settle (resume w)) = dataFormat w"
  "xhr (settle (resume w)) = xhr w" "request (settle (resume w)) = request w"
  by (simp_all add: resume_def)

section \<open>The data format is written by reset only\<close>

lemma handle_dataFormat: "dataFormat (handle t x n w) = dataFormat w"
  by (cases t) simp_all

lemma fire_dataFormat [simp]: "dataFormat (fire t x n w) = dataFormat w"
  by (simp add: fire_def funpow_keeps handle_dataFormat)

lemma step_dataFormat: "dataFormat w = BINARY \<Longrightarrow> dataFormat (step i w) = BINARY"
  by (cases i) (simp_all add: close_def reset_def set_dataFormat_def funpow_keeps)

lemma run_dataFormat: "dataFormat w = BINARY \<Longrightarrow> dataFormat (run ins w) = BINARY"
  unfolding run_def by (induction ins arbitrary: w) (simp_all add: step_dataFormat)

lemma new_FileLoader_dataFormat: "dataFormat (new_FileLoader r) = BINARY"
  by (simp add: new_FileLoader_def initialize_def Let_def reset_def)

section \<open>From the construction to the header response\<close>

lemma fold_setRequestHeader:
  "x < length (heap w) \<Longrightarrow>
   fold (\<lambda>item. setRequestHeader x (fst item) (Str (snd item))) hs w =
   upd x (\<lambda>ob. ob\<lparr>headers := headers ob @ map (\<lambda>item. (fst item, Str (snd item))) hs\<rparr>) w"
proof (induction hs arbitrary: w)
  case Nil
  then show ?case by (simp add: upd_def)
next
  case (Cons h hs)
  then show ?case by (simp add: setRequestHeader_def upd_def)
qed

lemma new_FileLoader_eq:
  "new_FileLoader r =
     \<lparr>state = 0, loaded = 0, total = Number 0, data = None, dataFormat = BINARY, timeout = 0,
      xhr = Some 0, loader = None, request = r, active_disconnect = False,
      heap = [new_XMLHttpRequest\<lparr>listeners := [(Ev_loadstart, 0), (Ev_abort, 1), (Ev_readystatechange, 2), (Ev_error, 3)]\<rparr>],
      window = [], next_ref = 4, emitted = []\<rparr>"
  by (simp add: new_FileLoader_def initialize_def page_def reset_def Let_def
      addEventListener_def upd_def new_XMLHttpRequest_def)

lemma loaded_eq:
  "step (Call_load None) (new_FileLoader (Some q)) =
     \<lparr>state = 1, loaded = 0, total = Number 0, data = None, dataFormat = BINARY, timeout = 0,
      xhr = Some 0, loader = None, request = Some q, active_disconnect = False,
      heap = [header_request q], window = [], next_ref = 4, emitted = [START Lv_status]\<rparr>"
  by (simp add: new_FileLoader_eq load_def Let_def fold_setRequestHeader xhr_open_def
      set_responseType_def upd_def xhr_send_def registered_def header_request_def
      new_XMLHttpRequest_def onStart_def emit_def)

lemma discover_Some:
  "discover q (Some n) =
     \<lparr>state = 3, loaded = 0, total = Header (Some n), data = None, dataFormat = BINARY,
      timeout = 0, xhr = Some 0, loader = Some 1, request = Some q, active_disconnect = False,
      heap = [(header_request q)\<lparr>send_flag := False, readyState := 0, content_length := Some n\<rparr>,
              chunk_request q 0 10],
      window = [(Ev_online, 14), (Ev_offline, 15)], next_ref = 16, emitted = [START Lv_status]\<rparr>"
  unfolding discover_def loaded_eq
  apply (simp add: header_request_def fire_def registered_def upd_def)
  apply (simp add: onHTTPStatus_def Let_def getResponseHeader_Content_Length_def)
  apply (simp add: abort_def Let_def rline_def window_removeEventListener_def xhr_abort_def
      in_flight_def registered_def upd_def onClose_def removeEventListener_def)
  apply (simp add: slice_Some aline_def window_addEventListener_def Let_def)
  done

lemma discover_None:
  "discover q None =
     \<lparr>state = 2, loaded = 0, total = Header None, data = None, dataFormat = BINARY,
      timeout = 0, xhr = Some 0, loader = None, request = Some q, active_disconnect = False,
      heap = [(header_request q)\<lparr>readyState := 2, status := 200\<rparr>],
      window = [], next_ref = 4,
      emitted = [START Lv_status, ERROR 1001 Lv_error ''unable to get file size'']\<rparr>"
  unfolding discover_def loaded_eq
  apply (simp add: header_request_def fire_def registered_def upd_def)
  apply (simp add: onHTTPStatus_def Let_def getResponseHeader_Content_Length_def emit_def)
  done

section \<open>Requests in flight\<close>

lemma heap_length [simp]:
  "length (heap (addEventListener x t w)) = length (heap w)"
  "length (heap (removeEventListener x t w)) = length (heap w)"
  "length (heap (xhr_open x m u w)) = length (heap w)"
  "length (heap (setRequestHeader x n v w)) = length (heap w)"
  "length (heap (set_responseType x s w)) = length (heap w)"
  "length (heap (xhr_abort x w)) = length (heap w)"
  by (simp_all add: addEventListener_def removeEventListener_def xhr_open_def
      setRequestHeader_def set_responseType_def xhr_abort_def Let_def)

lemma abort_heap_length [simp]: "length (heap (abort w)) = length (heap w)"
  by (simp add: abort_def Let_def split: option.splits)

lemma removeEventListener_in_flight [simp]:
  "in_flight (heap (removeEventListener x t w) ! y) = in_flight (heap w ! y)"
  by (cases "x = y"; cases "x < length (heap w)")
     (simp_all add: removeEventListener_def Let_def in_flight_def list_update_beyond not_less)

lemma chunk_request_facts [simp]:
  "in_flight (chunk_request q n f)"
  "range_of (headers (chunk_request q n f)) = Some (n, n + 204799)"
  by (simp_all add: chunk_request_def in_flight_def)

lemma xhr_abort_in_flight:
  "y < length (heap w) \<Longrightarrow>
   in_flight (heap (xhr_abort x w) ! y) = (y \<noteq> x \<and> in_flight (heap w ! y))"
  by (cases "x = y") (auto simp add: xhr_abort_def Let_def in_flight_def)

lemma abort_in_flight:
  "y < length (heap w) \<Longrightarrow>
   in_flight (heap (abort w) ! y) =
     (in_flight (heap w ! y) \<and> xhr w \<noteq> Some y \<and> loader w \<noteq> Some y)"
  by (auto simp add: abort_def Let_def xhr_abort_in_flight split: option.splits)

lemma onHTTPStatus_status_0: "status (heap w ! x) = 0 \<Longrightarrow> onHTTPStatus x w = Inr w"
  by (simp add: onHTTPStatus_def)

section \<open>Assembling the buffer\<close>

lemma assemble_consistent:
  "(case d of None \<Rightarrow> n = 0 | Some b \<Rightarrow> length b = n) \<Longrightarrow>
   assemble d n resp = Inr ((case d of None \<Rightarrow> [] | Some b \<Rightarrow> b) @ resp)"
  by (cases d) (simp_all add: assemble_def typed_set_def)

lemma assemble_length: "assemble d n resp = Inr t \<Longrightarrow> length t = n + length resp"
  by (cases d) (auto simp add: assemble_def typed_set_def Let_def split: if_splits sum.splits)

lemma got_chunk_facts:
  "loader (got_chunk n) = Some 1" "status (heap (got_chunk n) ! 1) < 400"
  "response (heap (got_chunk n) ! 1) = Some [1, 2, 3]" "request (got_chunk n) = Some test_zip"
  "consistent (got_chunk n)" "buffer (got_chunk n) = []" "loaded (got_chunk n) = 0"
  "total (got_chunk n) = Header (Some n)" "emitted (got_chunk n) = [START Lv_status]"
  "length (heap (got_chunk n)) = 2"
  by (simp_all add: got_chunk_def discover_Some consistent_def buffer_def)

section \<open>bytesLoaded does not decrease\<close>

lemma funpow_mono: "(\<And>v. (g v :: nat) \<le> g (f v)) \<Longrightarrow> g w \<le> g ((f ^^ n) w)"
proof (induction n)
  case 0
  then show ?case by simp
next
  case (Suc n)
  then have "g w \<le> g ((f ^^ n) w)" by simp
  also have "\<dots> \<le> g (f ((f ^^ n) w))" using Suc.prems by simp
  finally show ?case by simp
qed

lemma onComplete_loaded_mono: "loaded w \<le> loaded (settle (onComplete w))"
  by (cases "request w")
     (auto simp add: onComplete_def Let_def slice_Some slice_None
        split: option.splits sum.splits dest: assemble_length)

lemma handle_loaded_mono: "loaded w \<le> loaded (handle t x n w)"
  by (cases t) (simp_all add: onComplete_loaded_mono)

lemma fire_loaded_mono: "loaded w \<le> loaded (fire t x n w)"
  by (simp add: fire_def funpow_mono handle_loaded_mono)

lemma fire_loaded_mono_trans: "k \<le> loaded w \<Longrightarrow> k \<le> loaded (fire t x n w)"
  using fire_loaded_mono [of w t x n] by simp

lemma step_loaded_mono: "i \<noteq> Call_close \<Longrightarrow> loaded w \<le> loaded (step i w)"
  by (cases i) (simp_all add: set_dataFormat_def funpow_keeps fire_loaded_mono_trans)

lemma run_loaded_mono: "Call_close \<notin> set ins \<Longrightarrow> loaded w \<le> loaded (run ins w)"
  unfolding run_def
proof (induction ins arbitrary: w)
  case Nil
  then show ?case by simp
next
  case (Cons i ins)
  then have "i \<noteq> Call_close" by auto
  then have "loaded w \<le> loaded (step i w)" by (rule step_loaded_mono)
  also have "\<dots> \<le> loaded (fold step ins (step i w))" using Cons by simp
  finally show ?case by simp
qed

lemmas engine_defs =
  resume_def pause_def close_def reset_def abort_def rline_def aline_def
  window_removeEventListener_def window_addEventListener_def xhr_abort_def in_flight_def
  registered_def upd_def onClose_def onStart_def onError_def removeEventListener_def
  addEventListener_def header_request_def chunk_request_def emit_def fire_def
  onHTTPStatus_def onProgress_def onComplete_def assemble_def typed_set_def
  getResponseHeader_Content_Length_def Let_def

section \<open>After a header response without a length\<close>

lemma stalled_step:
  assumes "stalled w" and "\<forall>r. i \<noteq> Call_load r"
  shows "stalled (step i w) \<and>
         filter watched (emitted (step i w)) = filter watched (emitted w)"
proof -
  from assms(1) obtain ob where ob: "heap w = [ob]"
    "listeners ob = [(Ev_loadstart, 0), (Ev_abort, 1), (Ev_readystatechange, 2), (Ev_error, 3)]"
    "range_of (headers ob) = None" "\<not> (send_flag ob \<and> readyState ob = 1)"
    and w: "loader w = None" "state w \<noteq> 3" "window w = []" "4 \<le> next_ref w"
      "xhr w = None \<or> xhr w = Some 0"
    by (auto simp add: stalled_def)
  show ?thesis
  proof (cases i)
    case (Call_load r)
    with assms(2) show ?thesis by simp
  next
    case Call_close
    with ob w show ?thesis
      by (auto simp add: stalled_def close_def reset_def abort_def rline_def
          window_removeEventListener_def xhr_abort_def in_flight_def registered_def upd_def
          onClose_def removeEventListener_def emit_def Let_def)
  next
    case Call_pause
    with assms(1) w show ?thesis by (simp add: pause_def)
  next
    case Call_resume
    with assms(1) w show ?thesis by (simp add: resume_def)
  next
    case (Assign_dataFormat v)
    with assms(1) show ?thesis by (simp add: set_dataFormat_def)
  next
    case (Xhr_headers x st cl)
    with assms(1) ob show ?thesis by auto
  next
    case (Xhr_loading x)
    with ob w show ?thesis
      by (auto simp add: stalled_def fire_def registered_def upd_def onHTTPStatus_def Let_def)
  next
    case (Xhr_progress x n)
    with assms(1) ob show ?thesis by (auto simp add: fire_def registered_def)
  next
    case (Xhr_done x resp)
    with ob w show ?thesis
      by (auto simp add: stalled_def fire_def registered_def upd_def onHTTPStatus_def Let_def)
  next
    case (Xhr_error x)
    with ob w show ?thesis
      by (auto simp add: stalled_def fire_def registered_def upd_def onHTTPStatus_def Let_def
          onError_def emit_def in_flight_def)
  next
    case Window_online
    with assms(1) w show ?thesis by (simp add: window_registered_def)
  next
    case Window_offline
    with assms(1) w show ?thesis by (simp add: window_registered_def)
  qed
qed

lemma stalled_run:
  "stalled w \<Longrightarrow> \<forall>i \<in> set ins. \<forall>r. i \<noteq> Call_load r \<Longrightarrow>
   stalled (run ins w) \<and> filter watched (emitted (run ins w)) = filter watched (emitted w)"
  unfolding run_def
proof (induction ins arbitrary: w)
  case Nil
  then show ?case by simp
next
  case (Cons i ins)
  from Cons.prems have i: "\<forall>r. i \<noteq> Call_load r" by simp
  from stalled_step [OF Cons.prems(1) i] Cons.IH [of "step i w"] Cons.prems(2)
  show ?case by simp
qed

lemma stalled_ranges: "stalled w \<Longrightarrow> ranges w = [] \<and> loader w = None"
  by (auto simp add: stalled_def ranges_def List.map_filter_simps)

lemma range_of_Str [simp]:
  "range_of (map (\<lambda>item. (fst item, Str (snd item))) hs) = None"
  by (induction hs) simp_all

lemma header_without_length:
  "0 < st \<Longrightarrow> st < 400 \<Longrightarrow>
   step (Xhr_headers 0 st None) (step (Call_load None) (new_FileLoader (Some q))) =
     \<lparr>state = 2, loaded = 0, total = Header None, data = None, dataFormat = BINARY,
      timeout = 0, xhr = Some 0, loader = None, request = Some q, active_disconnect = False,
      heap = [(header_request q)\<lparr>readyState := 2, status := st\<rparr>],
      window = [], next_ref = 4,
      emitted = [START Lv_status, ERROR 1001 Lv_error ''unable to get file size'']\<rparr>"
  unfolding loaded_eq
  apply (simp add: header_request_def fire_def registered_def upd_def)
  apply (simp add: onHTTPStatus_def Let_def getResponseHeader_Content_Length_def emit_def)
  done

section \<open>The chunk loop\<close>

lemma onComplete_Inr:
  assumes "loader w = Some l" and "status (heap w ! l) < 400"
    and "response (heap w ! l) = Some resp" and "consistent w"
  shows "onComplete w =
     (if loaded w + length resp < to_number (total w) then
        slice (w\<lparr>data := Some (buffer w @ resp), loaded := loaded w + length resp\<rparr>)
      else
        Inr (emit (COMPLETE Lv_status (buffer w @ resp))
              (rline (w\<lparr>data := Some (buffer w @ resp), loaded := loaded w + length resp,
                        state := 4\<rparr>))))"
proof -
  have a: "assemble (data w) (loaded w) resp = Inr (buffer w @ resp)"
    using assms(4) by (simp add: consistent_def buffer_def assemble_consistent)
  have len: "length (buffer w) = loaded w"
    using assms(4) by (simp add: consistent_def buffer_def split: option.splits)
  show ?thesis
    using assms(1-3) a len by (simp add: onComplete_def Let_def)
qed

lemma map_update_same: "f y = f (xs ! x) \<Longrightarrow> map f (xs[x := y]) = map f xs"
  by (cases "x < length xs") (simp_all add: map_update list_update_same_conv list_update_beyond)

lemma answer_eq:
  assumes "loader w = Some l" and "l < length (heap w)"
    and "heap w ! l = chunk_request q (loaded w) f" and "state w = 3"
    and "loaded w < length res"
  shows "answer res w =
     settle (onComplete
       (upd l (\<lambda>ob. ob\<lparr>readyState := 4, send_flag := False, status := 206,
                       content_length := Some (length (take 204800 (drop (loaded w) res))),
                       response := Some (take 204800 (drop (loaded w) res))\<rparr>) w))"
proof -
  have s: "serve res (range_of (headers (heap w ! l))) =
           (206, take 204800 (drop (loaded w) res))"
    using assms(3,5) by (simp add: serve_def)
  show ?thesis
    unfolding answer_def
    using assms(1-4) s
    apply (simp add: fire_def registered_def upd_def chunk_request_def onHTTPStatus_def Let_def)
    done
qed

lemma ranges_append [simp]: "ranges (w\<lparr>heap := heap w @ [ob]\<rparr>) = ranges w @ (case range_of (headers ob) of None \<Rightarrow> [] | Some r \<Rightarrow> [r])"
  by (simp add: ranges_def List.map_filter_def split: option.splits)

lemma answer_chunking:
  assumes "chunking res q w"
  shows "if loaded w + 204800 < length res then
           chunking res q (answer res w) \<and> loaded (answer res w) = loaded w + 204800 \<and>
           emitted (answer res w) = emitted w \<and>
           ranges (answer res w) = ranges w @ [(loaded w + 204800, loaded w + 204800 + 204799)]
         else
           finished res (answer res w) \<and>
           emitted (answer res w) = emitted w @ [COMPLETE Lv_status res] \<and>
           ranges (answer res w) = ranges w"
proof -
  from assms obtain h l f where w: "state w = 3" "request w = Some q"
    "total w = Header (Some (length res))" "loaded w < length res"
    "buffer w = take (loaded w) res" "consistent w" "xhr w = Some h" "loader w = Some l"
    "h < length (heap w)" "l < length (heap w)" "h \<noteq> l" "\<not> in_flight (heap w ! h)"
    "heap w ! l = chunk_request q (loaded w) f"
    by (auto simp add: chunking_def)
  let ?c = "take 204800 (drop (loaded w) res)"
  let ?W = "upd l (\<lambda>ob. ob\<lparr>readyState := 4, send_flag := False, status := 206,
                       content_length := Some (length ?c), response := Some ?c\<rparr>) w"
  have a: "answer res w = settle (onComplete ?W)"
    using w(8,10,13,1,4) by (rule answer_eq)
  have W: "loader ?W = Some l" "status (heap ?W ! l) < 400" "response (heap ?W ! l) = Some ?c"
    "consistent ?W" "buffer ?W = buffer w"
    using w(6,8,10) by (simp_all add: consistent_def buffer_def split: option.splits)
  have hd: "map headers (heap ?W) = map headers (heap w)"
    by (simp add: map_update_same)
  have cat: "buffer w @ ?c = take (loaded w + 204800) res"
    using w(5) by (simp add: take_add)
  note oc = onComplete_Inr [OF W(1-4), unfolded W(5) cat]
  show ?thesis
  proof (cases "loaded w + 204800 < length res")
    case True
    then have lc: "length ?c = 204800" by simp
    have "onComplete ?W =
        slice (?W\<lparr>data := Some (take (loaded w + 204800) res), loaded := loaded w + 204800\<rparr>)"
      using oc True w(3) lc by simp
    then show ?thesis
      using True a w hd
      by (auto simp add: slice_Some chunking_def buffer_def consistent_def nth_append ranges_def
          List.map_filter_def)
  next
    case False
    then have lc: "loaded w + length ?c = length res" using w(4) by simp
    have "onComplete ?W =
        Inr (emit (COMPLETE Lv_status (take (loaded w + 204800) res))
              (rline (?W\<lparr>data := Some (take (loaded w + 204800) res),
                        loaded := loaded w + length ?c, state := 4\<rparr>)))"
      using oc False w(3) lc by simp
    then show ?thesis
      using False a w hd lc
      by (simp add: finished_def ranges_def)
  qed
qed

lemma pause_resume_chunking:
  assumes "chunking res q w"
  shows "chunking res q (step Call_resume (step Call_pause w)) \<and>
         loaded (step Call_resume (step Call_pause w)) = loaded w"
proof -
  from assms obtain h l f where w: "state w = 3" "request w = Some q"
    "total w = Header (Some (length res))" "loaded w < length res"
    "buffer w = take (loaded w) res" "consistent w" "xhr w = Some h" "loader w = Some l"
    "h < length (heap w)" "l < length (heap w)" "h \<noteq> l" "\<not> in_flight (heap w ! h)"
    "heap w ! l = chunk_request q (loaded w) f"
    by (auto simp add: chunking_def)
  let ?p = "pause w"
  have p: "state ?p = 3" "request ?p = Some q" "total ?p = total w" "loaded ?p = loaded w"
    "data ?p = data w" "xhr ?p = Some h" "length (heap ?p) = length (heap w)"
    "\<not> in_flight (heap ?p ! h)"
    using w by (simp_all add: pause_def abort_in_flight)
  have r: "step Call_resume (step Call_pause w) =
      ?p\<lparr>state := 3, loader := Some (length (heap ?p)),
          heap := heap ?p @ [chunk_request q (loaded ?p) (next_ref ?p)],
          next_ref := next_ref ?p + 4\<rparr>"
    using p(1,2) by (simp add: resume_def slice_Some)
  show ?thesis
    unfolding r using w p
    by (auto simp add: chunking_def buffer_def consistent_def nth_append split: option.splits)
qed

lemma cycles_chunking:
  "chunking res q w \<Longrightarrow> chunking res q (cycles k w) \<and> loaded (cycles k w) = loaded w"
proof (induction k arbitrary: w)
  case 0
  then show ?case by simp
next
  case (Suc k)
  from pause_resume_chunking [OF Suc.prems] Suc.IH [of "step Call_resume (step Call_pause w)"]
  show ?case by simp
qed

lemma drive_stopped: "state w \<noteq> 3 \<Longrightarrow> drive res ks w = w"
  by (cases ks) simp_all

lemma drive_chunking:
  "chunking res q w \<Longrightarrow>
   chunking res q (drive res ks w) \<or>
   finished res (drive res ks w) \<and> (\<exists>es. emitted (drive res ks w) = es @ [COMPLETE Lv_status res])"
proof (induction ks arbitrary: w)
  case Nil
  then show ?case by simp
next
  case (Cons k ks)
  let ?c = "cycles k w"
  from cycles_chunking [OF Cons.prems] have c: "chunking res q ?c" "loaded ?c = loaded w"
    by simp_all
  have s: "state w = 3" using Cons.prems by (simp add: chunking_def)
  show ?case
  proof (cases "loaded ?c + 204800 < length res")
    case True
    with answer_chunking [OF c(1)] have "chunking res q (answer res ?c)" by simp
    from Cons.IH [OF this] s show ?thesis by simp
  next
    case False
    with answer_chunking [OF c(1)] have f: "finished res (answer res ?c)"
      "emitted (answer res ?c) = emitted ?c @ [COMPLETE Lv_status res]" by simp_all
    then have "drive res ks (answer res ?c) = answer res ?c"
      by (simp add: drive_stopped finished_def)
    with f s show ?thesis by simp
  qed
qed

lemma drive_finishes:
  "chunking res q w \<Longrightarrow> length res \<le> loaded w + 204800 * length ks \<Longrightarrow>
   finished res (drive res ks w)"
proof (induction ks arbitrary: w)
  case Nil
  then show ?case by (simp add: chunking_def)
next
  case (Cons k ks)
  let ?c = "cycles k w"
  from cycles_chunking [OF Cons.prems(1)] have c: "chunking res q ?c" "loaded ?c = loaded w"
    by simp_all
  have s: "state w = 3" using Cons.prems by (simp add: chunking_def)
  show ?case
  proof (cases "loaded ?c + 204800 < length res")
    case True
    with answer_chunking [OF c(1)] have a: "chunking res q (answer res ?c)"
      "loaded (answer res ?c) = loaded ?c + 204800" by simp_all
    have "length res \<le> loaded (answer res ?c) + 204800 * length ks"
      using Cons.prems(2) a(2) c(2) by simp
    from Cons.IH [OF a(1) this] s show ?thesis by simp
  next
    case False
    with answer_chunking [OF c(1)] have f: "finished res (answer res ?c)" by simp
    then have "drive res ks (answer res ?c) = answer res ?c"
      by (simp add: drive_stopped finished_def)
    with f s show ?thesis by simp
  qed
qed

lemma discover_chunking: "res \<noteq> [] \<Longrightarrow> chunking res q (discover q (Some (length res)))"
  unfolding discover_Some
  by (auto simp add: chunking_def buffer_def consistent_def in_flight_def header_request_def)

lemma answer_refused:
  assumes "refused q w"
  shows "refused q (answer [] w)"
proof -
  from assms obtain l n f where w: "state w = 3" "request w = Some q" "loader w = Some l"
    "l < length (heap w)"
    "heap w ! l = chunk_request q n f \<or> heap w ! l = answered (chunk_request q n f)"
    and z: "loaded w = 0" "total w = Header (Some 0)"
    by (auto simp add: refused_def)
  from w(5) show ?thesis
  proof
    assume a: "heap w ! l = chunk_request q n f"
    have "answer [] w = emit (ERROR 416 Lv_error ''request error'')
            (rline (upd l (\<lambda>ob. answered (chunk_request q n f)) w))"
      unfolding answer_def using w(1-4) a
      by (simp add: serve_def fire_def registered_def upd_def chunk_request_def
          onHTTPStatus_def onComplete_def Let_def answered_def emit_def rline_def
          window_removeEventListener_def)
    then show ?thesis using w(1-4) z by (auto simp add: refused_def)
  next
    assume a: "heap w ! l = answered (chunk_request q n f)"
    have "answer [] w = w"
      unfolding answer_def using w(1-4) a
      by (simp add: serve_def chunk_request_def answered_def)
    then show ?thesis using assms by simp
  qed
qed

lemma pause_resume_refused:
  assumes "refused q w"
  shows "refused q (step Call_resume (step Call_pause w))"
proof -
  from assms have w: "state w = 3" "request w = Some q" "loaded w = 0"
    "total w = Header (Some 0)" by (auto simp add: refused_def)
  have p: "state (pause w) = 3" "request (pause w) = Some q" using w by simp_all
  have "step Call_resume (step Call_pause w) =
      (pause w)\<lparr>state := 3, loader := Some (length (heap (pause w))),
          heap := heap (pause w) @ [chunk_request q (loaded (pause w)) (next_ref (pause w))],
          next_ref := next_ref (pause w) + 4\<rparr>"
    using p by (simp add: resume_def slice_Some)
  then show ?thesis using w by (auto simp add: refused_def)
qed

lemma cycles_refused: "refused q w \<Longrightarrow> refused q (cycles k w)"
proof (induction k arbitrary: w)
  case 0
  then show ?case by simp
next
  case (Suc k)
  from pause_resume_refused [OF Suc.prems] Suc.IH [of "step Call_resume (step Call_pause w)"]
  show ?case by simp
qed

lemma drive_refused: "refused q w \<Longrightarrow> refused q (drive [] ks w)"
  by (induction ks arbitrary: w) (simp_all add: cycles_refused answer_refused)

lemma discover_refused: "refused q (discover q (Some 0))"
  unfolding discover_Some by (auto simp add: refused_def)

lemma whole_fetch_data: "u_data (whole_fetch res) = Some res"
  by (simp add: whole_fetch_def serve_def url_onComplete_def url_reset_def)

lemma transfer_bounded:
  "loaded (transfer q res ks) \<le> length res \<and>
   total (transfer q res ks) = Header (Some (length res))"
proof (cases "res = []")
  case True
  from drive_refused [OF discover_refused, of q ks] True show ?thesis
    by (simp add: transfer_def refused_def)
next
  case False
  from drive_chunking [OF discover_chunking [OF False, of q], of ks] show ?thesis
    by (auto simp add: transfer_def chunking_def finished_def)
qed

lemma three_chunks:
  assumes "length res = 500000"
  shows "ranges (transfer q res [0, 0, 0]) = [(0, 204799), (204800, 409599), (409600, 614399)]"
    and "state (transfer q res [0, 0, 0]) = 4"
    and "data (transfer q res [0, 0, 0]) = Some res"
    and "emitted (transfer q res [0, 0, 0]) = [START Lv_status, COMPLETE Lv_status res]"
proof -
  let ?d = "discover q (Some (length res))"
  have ne: "res \<noteq> []" using assms by auto
  have d: "chunking res q ?d" "loaded ?d = 0" "ranges ?d = [(0, 204799)]"
    "emitted ?d = [START Lv_status]"
    using discover_chunking [OF ne, of q]
    by (simp_all add: discover_Some ranges_def List.map_filter_def header_request_def
        chunk_request_def)
  from answer_chunking [OF d(1)] d assms
  have a1: "chunking res q (answer res ?d)" "loaded (answer res ?d) = 204800"
    "ranges (answer res ?d) = [(0, 204799), (204800, 409599)]"
    "emitted (answer res ?d) = [START Lv_status]"
    by simp_all
  from answer_chunking [OF a1(1)] a1 assms
  have a2: "chunking res q (answer res (answer res ?d))"
    "loaded (answer res (answer res ?d)) = 409600"
    "ranges (answer res (answer res ?d)) = [(0, 204799), (204800, 409599), (409600, 614399)]"
    "emitted (answer res (answer res ?d)) = [START Lv_status]"
    by simp_all
  from answer_chunking [OF a2(1)] a2 assms
  have a3: "finished res (answer res (answer res (answer res ?d)))"
    "ranges (answer res (answer res (answer res ?d))) =
       [(0, 204799), (204800, 409599), (409600, 614399)]"
    "emitted (answer res (answer res (answer res ?d))) =
       [START Lv_status, COMPLETE Lv_status res]"
    by simp_all
  have t: "transfer q res [0, 0, 0] = answer res (answer res (answer res ?d))"
    using d(1) a1(1) a2(1) by (simp add: transfer_def chunking_def)
  show "ranges (transfer q res [0, 0, 0]) = [(0, 204799), (204800, 409599), (409600, 614399)]"
    and "state (transfer q res [0, 0, 0]) = 4"
    and "data (transfer q res [0, 0, 0]) = Some res"
    and "emitted (transfer q res [0, 0, 0]) = [START Lv_status, COMPLETE Lv_status res]"
    using a3 unfolding t by (simp_all add: finished_def)
qed

section \<open>A resource of 500000 bytes\<close>

text \<open>
  Claim C1, as stated, for a resource of 500000 zero bytes: the ranges the three
  chunk requests ask for are not 0-204799, 204800-409599 and 409600-499999.
\<close>

theorem third_range_not_clipped:
  "ranges (transfer test_zip (replicate 500000 0) [0, 0, 0]) \<noteq>
     [(0, 204799), (204800, 409599), (409600, 499999)]"
  using three_chunks(1) [of "replicate 500000 0" test_zip] by simp

text \<open>
  Claim C1, amended. For a resource of 500000 bytes the loader makes exactly three
  chunk requests, with the Range headers \<^verbatim>\<open>bytes=0-204799\<close>, \<^verbatim>\<open>bytes=204800-409599\<close> and
  \<^verbatim>\<open>bytes=409600-614399\<close>; the server answers them with status 206 and the bytes
  0-204799, 204800-409599 and 409600-499999 (90400 bytes). The transfer ends in
  state 4; START and COMPLETE are all it emitted, and COMPLETE carries the resource.
\<close>

theorem three_ranged_requests:
  assumes "length res = 500000"
  shows "ranges (transfer q res [0, 0, 0]) =
           [(0, 204799), (204800, 409599), (409600, 614399)] \<and>
         map (\<lambda>r. serve res (Some r)) (ranges (transfer q res [0, 0, 0])) =
           [(206, take 204800 res), (206, take 204800 (drop 204800 res)),
            (206, drop 409600 res)] \<and>
         length (drop 409600 res) = 90400 \<and>
         state (transfer q res [0, 0, 0]) = 4 \<and>
         emitted (transfer q res [0, 0, 0]) = [START Lv_status, COMPLETE Lv_status res] \<and>
         data (transfer q res [0, 0, 0]) = Some res"
  using three_chunks [OF assms, of q] assms by (simp add: serve_def)

text \<open>
  The theorem for 500000 zero bytes.
\<close>

theorem three_ranged_requests_witness:
  "ranges (transfer test_zip (replicate 500000 0) [0, 0, 0]) =
     [(0, 204799), (204800, 409599), (409600, 614399)] \<and>
   state (transfer test_zip (replicate 500000 0) [0, 0, 0]) = 4 \<and>
   emitted (transfer test_zip (replicate 500000 0) [0, 0, 0]) =
     [START Lv_status, COMPLETE Lv_status (replicate 500000 0)] \<and>
   length (replicate 500000 (0 :: 8 word)) = 500000"
  using three_ranged_requests [of "replicate 500000 0" test_zip] by simp

section \<open>A chunk arrives\<close>

text \<open>
  Claim C2. When the \<^verbatim>\<open>load\<close> listener runs for a chunk session whose status is below
  400, the response is appended to the buffer at offset \<^verbatim>\<open>bytesLoaded\<close>, and
  \<^verbatim>\<open>bytesLoaded\<close> grows by its length. If that reaches \<^verbatim>\<open>bytesTotal\<close>, the state becomes 4,
  exactly one notification is emitted, COMPLETE with the whole buffer, and no request
  is made; otherwise nothing is emitted and a new chunk session asks for the range
  starting at the new \<^verbatim>\<open>bytesLoaded\<close>.
\<close>

theorem onComplete_completes_or_continues:
  assumes "loader w = Some l" and "status (heap w ! l) < 400"
    and "response (heap w ! l) = Some resp" and "request w = Some q" and "consistent w"
  shows "\<exists>v. onComplete w = Inr v \<and> data v = Some (buffer w @ resp) \<and>
           loaded v = loaded w + length resp \<and> total v = total w \<and>
           (if to_number (total w) \<le> loaded v then
              state v = 4 \<and> emitted v = emitted w @ [COMPLETE Lv_status (buffer w @ resp)] \<and>
              heap v = heap w \<and> loader v = loader w
            else
              state v = 3 \<and> emitted v = emitted w \<and> loader v = Some (length (heap w)) \<and>
              heap v = heap w @ [chunk_request q (loaded v) (next_ref w)])"
proof -
  have a: "assemble (data w) (loaded w) resp = Inr (buffer w @ resp)"
    using assms(5) by (simp add: consistent_def buffer_def assemble_consistent)
  have len: "length (buffer w) = loaded w"
    using assms(5) by (simp add: consistent_def buffer_def split: option.splits)
  show ?thesis
    using assms(1-4) a len by (simp add: onComplete_def Let_def slice_Some)
qed

text \<open>
  The theorem for a chunk of three bytes, when the resource has three bytes and
  when it has seven.
\<close>

theorem onComplete_completes_or_continues_witness:
  "(\<exists>v. onComplete (got_chunk 3) = Inr v \<and> data v = Some [1, 2, 3] \<and> loaded v = 3 \<and>
        state v = 4 \<and> emitted v = [START Lv_status, COMPLETE Lv_status [1, 2, 3]]) \<and>
   (\<exists>v. onComplete (got_chunk 7) = Inr v \<and> data v = Some [1, 2, 3] \<and> loaded v = 3 \<and>
        state v = 3 \<and> emitted v = [START Lv_status] \<and> loader v = Some 2 \<and>
        range_of (headers (heap v ! 2)) = Some (3, 204802))"
proof
  from onComplete_completes_or_continues [OF got_chunk_facts(1-5), of 3]
  obtain v where v: "onComplete (got_chunk 3) = Inr v"
    "data v = Some (buffer (got_chunk 3) @ [1, 2, 3])"
    "loaded v = loaded (got_chunk 3) + length [1, 2, 3 :: 8 word]"
    "if to_number (total (got_chunk 3)) \<le> loaded v then
       state v = 4 \<and>
       emitted v = emitted (got_chunk 3) @ [COMPLETE Lv_status (buffer (got_chunk 3) @ [1, 2, 3])] \<and>
       heap v = heap (got_chunk 3) \<and> loader v = loader (got_chunk 3)
     else
       state v = 3 \<and> emitted v = emitted (got_chunk 3) \<and>
       loader v = Some (length (heap (got_chunk 3))) \<and>
       heap v = heap (got_chunk 3) @ [chunk_request test_zip (loaded v) (next_ref (got_chunk 3))]"
    by blast
  have "loaded v = 3" using v(3) by (simp add: got_chunk_facts)
  moreover have "data v = Some [1, 2, 3]" using v(2) by (simp add: got_chunk_facts)
  moreover have "state v = 4 \<and> emitted v = [START Lv_status, COMPLETE Lv_status [1, 2, 3]]"
    using v(4) \<open>loaded v = 3\<close> by (simp add: got_chunk_facts)
  ultimately show "\<exists>v. onComplete (got_chunk 3) = Inr v \<and> data v = Some [1, 2, 3] \<and>
        loaded v = 3 \<and> state v = 4 \<and>
        emitted v = [START Lv_status, COMPLETE Lv_status [1, 2, 3]]"
    using v(1) by blast
next
  from onComplete_completes_or_continues [OF got_chunk_facts(1-5), of 7]
  obtain v where v: "onComplete (got_chunk 7) = Inr v"
    "data v = Some (buffer (got_chunk 7) @ [1, 2, 3])"
    "loaded v = loaded (got_chunk 7) + length [1, 2, 3 :: 8 word]"
    "if to_number (total (got_chunk 7)) \<le> loaded v then
       state v = 4 \<and>
       emitted v = emitted (got_chunk 7) @ [COMPLETE Lv_status (buffer (got_chunk 7) @ [1, 2, 3])] \<and>
       heap v = heap (got_chunk 7) \<and> loader v = loader (got_chunk 7)
     else
       state v = 3 \<and> emitted v = emitted (got_chunk 7) \<and>
       loader v = Some (length (heap (got_chunk 7))) \<and>
       heap v = heap (got_chunk 7) @ [chunk_request test_zip (loaded v) (next_ref (got_chunk 7))]"
    by blast
  have l: "loaded v = 3" using v(3) by (simp add: got_chunk_facts)
  moreover have "data v = Some [1, 2, 3]" using v(2) by (simp add: got_chunk_facts)
  moreover have "state v = 3 \<and> emitted v = [START Lv_status] \<and> loader v = Some 2 \<and>
      range_of (headers (heap v ! 2)) = Some (3, 204802)"
    using v(4) l by (simp add: got_chunk_facts nth_append)
  ultimately show "\<exists>v. onComplete (got_chunk 7) = Inr v \<and> data v = Some [1, 2, 3] \<and>
        loaded v = 3 \<and> state v = 3 \<and> emitted v = [START Lv_status] \<and> loader v = Some 2 \<and>
        range_of (headers (heap v ! 2)) = Some (3, 204802)"
    using v(1) by blast
qed

section \<open>bytesLoaded over a transfer\<close>

text \<open>
  Claim C3, as stated, at two runs of a loader for a resource of 7 bytes. In the
  first, \<^verbatim>\<open>resume()\<close> is called while the chunk request is in flight, so two chunk
  sessions ask for the same range; the server answers both with the 7 bytes, the
  younger session ends first. The \<^verbatim>\<open>load\<close> listener of the older session then reads
  the response of the current session once more: \<^verbatim>\<open>bytesLoaded\<close> becomes 14 while
  \<^verbatim>\<open>bytesTotal\<close> is 7. In the second run a progress event reports 8 bytes; PROGRESS is
  emitted with \<^verbatim>\<open>loaded\<close> 8 and \<^verbatim>\<open>total\<close> 7.
\<close>

theorem loaded_exceeds_total:
  "loaded (run [Call_resume, Xhr_headers 1 206 (Some 7), Xhr_headers 2 206 (Some 7),
                Xhr_done 2 [1, 2, 3, 4, 5, 6, 7], Xhr_done 1 [1, 2, 3, 4, 5, 6, 7]]
            (discover test_zip (Some 7))) = 14 \<and>
   total (run [Call_resume, Xhr_headers 1 206 (Some 7), Xhr_headers 2 206 (Some 7),
                Xhr_done 2 [1, 2, 3, 4, 5, 6, 7], Xhr_done 1 [1, 2, 3, 4, 5, 6, 7]]
            (discover test_zip (Some 7))) = Header (Some 7) \<and>
   emitted (run [Xhr_headers 1 206 (Some 8), Xhr_loading 1, Xhr_progress 1 8]
             (discover test_zip (Some 7))) =
     [START Lv_status, PROGRESS Lv_status 8 (Header (Some 7))]"
  unfolding run_def discover_Some
  by (simp add: engine_defs slice_Some)

text \<open>
  Claim C3, amended. Over any sequence of calls and events without \<^verbatim>\<open>close()\<close>,
  \<^verbatim>\<open>bytesLoaded\<close> does not decrease. A chunk append adds the length of the response,
  whatever \<^verbatim>\<open>bytesTotal\<close> is, and leaves \<^verbatim>\<open>bytesTotal\<close> alone. In a transfer served by a
  server that honours Range, with any pause and resume cycles between the answers,
  \<^verbatim>\<open>bytesLoaded\<close> is at most \<^verbatim>\<open>bytesTotal\<close>, the length of the resource.
\<close>

theorem loaded_monotone_bounded_by_served:
  "(Call_close \<notin> set ins \<longrightarrow> loaded w \<le> loaded (run ins w)) \<and>
   (loader w = Some l \<and> status (heap w ! l) < 400 \<and> response (heap w ! l) = Some resp \<and>
    consistent w \<longrightarrow>
      loaded (settle (onComplete w)) = loaded w + length resp \<and>
      total (settle (onComplete w)) = total w) \<and>
   loaded (transfer q res ks) \<le> to_number (total (transfer q res ks)) \<and>
   total (transfer q res ks) = Header (Some (length res))"
proof -
  have "loaded (settle (onComplete w)) = loaded w + length resp"
    if "loader w = Some l" "status (heap w ! l) < 400" "response (heap w ! l) = Some resp"
      "consistent w"
    using onComplete_Inr [OF that] by simp
  then show ?thesis
    using transfer_bounded [of q res ks] by (simp add: run_loaded_mono)
qed

text \<open>
  The theorem for a run with a pause in it, for a chunk of three bytes, and for a
  transfer of three bytes with one cycle.
\<close>

theorem loaded_monotone_bounded_by_served_witness:
  "loaded (discover test_zip (Some 7)) \<le>
     loaded (run [Xhr_headers 1 206 (Some 3), Call_pause, Xhr_done 1 [1, 2, 3]]
              (discover test_zip (Some 7))) \<and>
   loaded (settle (onComplete (got_chunk 7))) = loaded (got_chunk 7) + length [1, 2, 3 :: 8 word] \<and>
   loaded (transfer test_zip [1, 2, 3] [1]) \<le>
     to_number (total (transfer test_zip [1, 2, 3] [1]))"
proof -
  have a: "Call_close \<notin> set [Xhr_headers 1 206 (Some 3), Call_pause, Xhr_done 1 [1, 2, 3]]"
    by simp
  have b: "loader (got_chunk 7) = Some 1 \<and> status (heap (got_chunk 7) ! 1) < 400 \<and>
      response (heap (got_chunk 7) ! 1) = Some [1, 2, 3] \<and> consistent (got_chunk 7)"
    using got_chunk_facts(1-5) [of 7] by blast
  from a b
    loaded_monotone_bounded_by_served
      [of "[Xhr_headers 1 206 (Some 3), Call_pause, Xhr_done 1 [1, 2, 3]]"
          "discover test_zip (Some 7)" 1 "[1, 2, 3]" test_zip "[1, 2, 3]" "[1]"]
    loaded_monotone_bounded_by_served [of "[]" "got_chunk 7" 1 "[1, 2, 3]" test_zip "[1, 2, 3]" "[1]"]
  show ?thesis by blast
qed

section \<open>close() and a later load()\<close>

text \<open>
  Claim C4, as stated, at the example: the loader is in state 3, \<^verbatim>\<open>close()\<close> is called,
  then \<^verbatim>\<open>load(request)\<close>. The call throws the TypeError of \<^verbatim>\<open>load\<close>; the store still
  holds the two old request objects only, none of them in flight, so no header
  session was opened.
\<close>

theorem load_after_close_throws:
  "load (Some test_zip) (close (discover test_zip (Some 500000))) =
     Inl (TypeError, close (discover test_zip (Some 500000))) \<and>
   state (discover test_zip (Some 500000)) = 3 \<and>
   length (heap (close (discover test_zip (Some 500000)))) = 2 \<and>
   map in_flight (heap (close (discover test_zip (Some 500000)))) = [False, False]"
  unfolding discover_Some
  by (simp add: load_def close_def reset_def abort_def Let_def rline_def
      window_removeEventListener_def xhr_abort_def in_flight_def registered_def upd_def
      onClose_def removeEventListener_def header_request_def chunk_request_def emit_def)

text \<open>
  Claim C4, amended. \<^verbatim>\<open>close()\<close> in any state, state 3 included, leaves \<^verbatim>\<open>bytesLoaded\<close> 0,
  \<^verbatim>\<open>bytesTotal\<close> 0, \<^verbatim>\<open>data\<close> null and the state 0, and drops both session references.
  A \<^verbatim>\<open>load()\<close> after it opens no session: it throws a TypeError and leaves the loader
  as \<^verbatim>\<open>close()\<close> left it, but for \<^verbatim>\<open>_request\<close> when a request is passed.
\<close>

theorem close_resets_and_load_throws:
  "loaded (close w) = 0 \<and> total (close w) = Number 0 \<and> data (close w) = None \<and>
   state (close w) = 0 \<and> xhr (close w) = None \<and> loader (close w) = None \<and>
   load r (close w) =
     Inl (TypeError, (close w)\<lparr>request := (case r of None \<Rightarrow> request w | Some q \<Rightarrow> Some q)\<rparr>)"
  by (cases r) (simp_all add: close_def reset_def load_def)

section \<open>A header response without Content-Length\<close>

text \<open>
  Claim C5. A loader is created and loaded, and the header response arrives with a
  2xx status and no Content-Length. Then START and one ERROR with code 1001 and level
  ERROR have been emitted; and after any further calls and events other than a new
  \<^verbatim>\<open>load()\<close>, that ERROR is still the only notification that is a PROGRESS, a COMPLETE
  or an ERROR with code 1001, no request with a Range header exists and there is no
  chunk session.
\<close>

theorem missing_content_length_stops:
  assumes "200 \<le> st" and "st < 300" and "\<forall>i \<in> set ins. \<forall>r. i \<noteq> Call_load r"
  shows "emitted (step (Xhr_headers 0 st None) (step (Call_load None) (new_FileLoader (Some q)))) =
           [START Lv_status, ERROR 1001 Lv_error ''unable to get file size''] \<and>
         filter watched
           (emitted (run ins (step (Xhr_headers 0 st None)
                                (step (Call_load None) (new_FileLoader (Some q)))))) =
           [ERROR 1001 Lv_error ''unable to get file size''] \<and>
         ranges (run ins (step (Xhr_headers 0 st None)
                            (step (Call_load None) (new_FileLoader (Some q))))) = [] \<and>
         loader (run ins (step (Xhr_headers 0 st None)
                            (step (Call_load None) (new_FileLoader (Some q))))) = None"
proof -
  let ?w = "step (Xhr_headers 0 st None) (step (Call_load None) (new_FileLoader (Some q)))"
  have eq: "?w =
     \<lparr>state = 2, loaded = 0, total = Header None, data = None, dataFormat = BINARY,
      timeout = 0, xhr = Some 0, loader = None, request = Some q, active_disconnect = False,
      heap = [(header_request q)\<lparr>readyState := 2, status := st\<rparr>],
      window = [], next_ref = 4,
      emitted = [START Lv_status, ERROR 1001 Lv_error ''unable to get file size'']\<rparr>"
    using assms(1,2) by (intro header_without_length) simp_all
  have st: "stalled ?w"
    unfolding eq by (simp add: stalled_def header_request_def)
  have em: "emitted ?w = [START Lv_status, ERROR 1001 Lv_error ''unable to get file size'']"
    unfolding eq by simp
  from stalled_run [OF st assms(3)] stalled_ranges [of "run ins ?w"] em
  show ?thesis by simp
qed

text \<open>
  The theorem for status 200, followed by the rest of the response, a
  \<^verbatim>\<open>resume()\<close>, an online signal and \<^verbatim>\<open>close()\<close>.
\<close>

theorem missing_content_length_stops_witness:
  "filter watched
     (emitted (run [Xhr_loading 0, Call_resume, Window_online, Xhr_done 0 [1, 2, 3], Call_close]
                (step (Xhr_headers 0 200 None)
                  (step (Call_load None) (new_FileLoader (Some test_zip)))))) =
     [ERROR 1001 Lv_error ''unable to get file size''] \<and>
   ranges (run [Xhr_loading 0, Call_resume, Window_online, Xhr_done 0 [1, 2, 3], Call_close]
            (step (Xhr_headers 0 200 None)
              (step (Call_load None) (new_FileLoader (Some test_zip))))) = []"
proof -
  have a: "(200::nat) \<le> 200" and b: "(200::nat) < 300" by simp_all
  have c: "\<forall>i \<in> set [Xhr_loading 0, Call_resume, Window_online, Xhr_done 0 [1, 2, 3], Call_close].
      \<forall>r. i \<noteq> Call_load r" by simp
  from missing_content_length_stops [OF a b c, of test_zip]
  show ?thesis by blast
qed

section \<open>pause() and resume()\<close>

text \<open>
  Claim C6. In state 3, \<^verbatim>\<open>pause()\<close> followed by \<^verbatim>\<open>resume()\<close> keeps \<^verbatim>\<open>bytesLoaded\<close>,
  \<^verbatim>\<open>bytesTotal\<close> and \<^verbatim>\<open>data\<close>, stays in state 3 and makes a new chunk session the
  current one; that session is in flight and asks for the range starting at the
  kept \<^verbatim>\<open>bytesLoaded\<close>, and of the older request objects only those stay in flight
  that were in flight before and are neither the header session nor the chunk
  session that was paused. In every other state \<^verbatim>\<open>pause()\<close> and \<^verbatim>\<open>resume()\<close> change
  nothing.
\<close>

theorem pause_resume_same_offset:
  "(state w = 3 \<and> request w = Some q \<longrightarrow>
      (\<exists>v. resume (pause w) = Inr v \<and>
           loaded v = loaded w \<and> total v = total w \<and> data v = data w \<and> state v = 3 \<and>
           loader v = Some (length (heap w)) \<and>
           length (heap v) = Suc (length (heap w)) \<and>
           in_flight (heap v ! length (heap w)) \<and>
           range_of (headers (heap v ! length (heap w))) = Some (loaded w, loaded w + 204799) \<and>
           (\<forall>y < length (heap w).
              in_flight (heap v ! y) \<longrightarrow>
                in_flight (heap w ! y) \<and> xhr w \<noteq> Some y \<and> loader w \<noteq> Some y))) \<and>
   (state w \<noteq> 3 \<longrightarrow> pause w = w \<and> resume w = Inr w)"
  by (auto simp add: resume_def slice_Some pause_def nth_append abort_in_flight)

text \<open>
  The theorem at the example in state 3, and in the state 2 a missing
  Content-Length leaves.
\<close>

theorem pause_resume_same_offset_witness:
  "state (discover test_zip (Some 500000)) = 3 \<and>
   request (discover test_zip (Some 500000)) = Some test_zip \<and>
   (\<exists>v. resume (pause (discover test_zip (Some 500000))) = Inr v \<and>
        loaded v = loaded (discover test_zip (Some 500000)) \<and>
        total v = total (discover test_zip (Some 500000)) \<and>
        range_of (headers (heap v ! length (heap (discover test_zip (Some 500000))))) =
          Some (loaded (discover test_zip (Some 500000)),
                loaded (discover test_zip (Some 500000)) + 204799)) \<and>
   state (discover test_zip None) \<noteq> 3 \<and>
   pause (discover test_zip None) = discover test_zip None \<and>
   resume (discover test_zip None) = Inr (discover test_zip None)"
proof -
  have d: "state (discover test_zip (Some 500000)) = 3 \<and>
           request (discover test_zip (Some 500000)) = Some test_zip"
    by (simp add: discover_Some)
  have n: "state (discover test_zip None) \<noteq> 3"
    by (simp add: discover_None)
  show ?thesis
    using d n pause_resume_same_offset [of "discover test_zip (Some 500000)" test_zip]
      pause_resume_same_offset [of "discover test_zip None" test_zip]
    by blast
qed

section \<open>The online signal\<close>

text \<open>
  Claim C7. In state 3 the listener \<^verbatim>\<open>online\<close> does what \<^verbatim>\<open>resume()\<close> does and then
  emits the STATUS level notification \<^verbatim>\<open>network recovery\<close>; with a request set, the
  new chunk session asks for the range that starts at \<^verbatim>\<open>bytesLoaded\<close>. In any other
  state it changes nothing and emits nothing. In the state header discovery leaves,
  one \<^verbatim>\<open>online\<close> listener is registered on \<^verbatim>\<open>window\<close>, so the signal runs \<^verbatim>\<open>online\<close> once.
\<close>

theorem online_reissues_chunk:
  "(state w = 3 \<longrightarrow>
      online w =
        (case resume w of
           Inl e \<Rightarrow> Inl e
         | Inr v \<Rightarrow> Inr (emit (NETWORK_STATE ''online'' Lv_status ''network recovery'') v))) \<and>
   (state w = 3 \<and> request w = Some q \<longrightarrow>
      online w =
        Inr (w\<lparr>state := 3, loader := Some (length (heap w)),
               heap := heap w @ [chunk_request q (loaded w) (next_ref w)],
               next_ref := next_ref w + 4,
               emitted := emitted w @ [NETWORK_STATE ''online'' Lv_status ''network recovery'']\<rparr>) \<and>
      range_of (headers (chunk_request q (loaded w) (next_ref w))) =
        Some (loaded w, loaded w + 204799)) \<and>
   (state w \<noteq> 3 \<longrightarrow> online w = Inr w) \<and>
   step Window_online (discover q (Some n)) = settle (online (discover q (Some n)))"
  by (simp add: online_def resume_def slice_Some emit_def chunk_request_def discover_Some
      window_registered_def)

text \<open>
  The theorem at the example in state 3, and in the state 2 a missing
  Content-Length leaves.
\<close>

theorem online_reissues_chunk_witness:
  "state (discover test_zip (Some 500000)) = 3 \<and>
   request (discover test_zip (Some 500000)) = Some test_zip \<and>
   online (discover test_zip (Some 500000)) =
     Inr ((discover test_zip (Some 500000))
          \<lparr>state := 3, loader := Some (length (heap (discover test_zip (Some 500000)))),
           heap := heap (discover test_zip (Some 500000)) @
                   [chunk_request test_zip (loaded (discover test_zip (Some 500000)))
                      (next_ref (discover test_zip (Some 500000)))],
           next_ref := next_ref (discover test_zip (Some 500000)) + 4,
           emitted := emitted (discover test_zip (Some 500000)) @
                      [NETWORK_STATE ''online'' Lv_status ''network recovery'']\<rparr>) \<and>
   state (discover test_zip None) \<noteq> 3 \<and>
   online (discover test_zip None) = Inr (discover test_zip None)"
proof -
  have d: "state (discover test_zip (Some 500000)) = 3 \<and>
           request (discover test_zip (Some 500000)) = Some test_zip"
    by (simp add: discover_Some)
  have n: "state (discover test_zip None) \<noteq> 3"
    by (simp add: discover_None)
  show ?thesis
    using d n online_reissues_chunk [of "discover test_zip (Some 500000)" test_zip 0]
      online_reissues_chunk [of "discover test_zip None" test_zip 0]
    by blast
qed

section \<open>The chunked transfer against the whole fetch\<close>

text \<open>
  Claim C8. A transfer of the resource \<open>res\<close> from a server that honours Range, with
  \<open>ks\<close> giving the number of pause and resume cycles before each chunk answer.
  Whenever the transfer is in state 4, its buffer is the \<^verbatim>\<open>data\<close> of a URLLoader
  that fetched the resource in one binary request. For a non-empty resource and
  at least one round per 204800 bytes the transfer does reach state 4, and its last
  notification is COMPLETE with the resource.
\<close>

theorem chunked_equals_whole_fetch:
  "(state (transfer q res ks) = 4 \<longrightarrow>
      data (transfer q res ks) = u_data (whole_fetch res)) \<and>
   (res \<noteq> [] \<and> length res \<le> 204800 * length ks \<longrightarrow>
      state (transfer q res ks) = 4 \<and>
      data (transfer q res ks) = u_data (whole_fetch res) \<and>
      (\<exists>es. emitted (transfer q res ks) = es @ [COMPLETE Lv_status res]))"
proof (cases "res = []")
  case True
  from drive_refused [OF discover_refused, of q ks] have "state (transfer q res ks) = 3"
    using True by (simp add: transfer_def refused_def)
  with True show ?thesis by simp
next
  case False
  note c = discover_chunking [OF False, of q]
  from drive_chunking [OF c, of ks]
  have a: "state (transfer q res ks) = 4 \<longrightarrow> data (transfer q res ks) = Some res"
    by (auto simp add: transfer_def chunking_def finished_def)
  have b: "length res \<le> 204800 * length ks \<longrightarrow>
      state (transfer q res ks) = 4 \<and> data (transfer q res ks) = Some res \<and>
      (\<exists>es. emitted (transfer q res ks) = es @ [COMPLETE Lv_status res])"
  proof
    assume l: "length res \<le> 204800 * length ks"
    have "loaded (discover q (Some (length res))) = 0" by (simp add: discover_Some)
    with l have "length res \<le> loaded (discover q (Some (length res))) + 204800 * length ks"
      by simp
    from drive_finishes [OF c this] have f: "finished res (transfer q res ks)"
      by (simp add: transfer_def)
    with drive_chunking [OF c, of ks]
    show "state (transfer q res ks) = 4 \<and> data (transfer q res ks) = Some res \<and>
      (\<exists>es. emitted (transfer q res ks) = es @ [COMPLETE Lv_status res])"
      by (auto simp add: transfer_def chunking_def finished_def)
  qed
  from a b show ?thesis by (simp add: whole_fetch_data)
qed

text \<open>
  The theorem for a resource of 500000 bytes, with two cycles before the second
  answer and one before the third.
\<close>

theorem chunked_equals_whole_fetch_witness:
  "state (transfer test_zip (replicate 500000 0) [0, 2, 1]) = 4 \<and>
   data (transfer test_zip (replicate 500000 0) [0, 2, 1]) =
     u_data (whole_fetch (replicate 500000 0)) \<and>
   u_data (whole_fetch (replicate 500000 0)) = Some (replicate 500000 0)"
  using chunked_equals_whole_fetch [of test_zip "replicate 500000 0" "[0, 2, 1]"]
  by (simp add: whole_fetch_data)

section \<open>Listeners of a session that was aborted\<close>

text \<open>
  Claim C9. The example of the README: a loader for \<^verbatim>\<open>test.zip\<close>, loaded, the server
  announcing 500000 bytes. After \<^verbatim>\<open>pause()\<close>, and likewise after \<^verbatim>\<open>close()\<close>, neither
  request object is in flight any more, yet the header session still holds the four
  listeners of \<^verbatim>\<open>initialize\<close> and the chunk session the four of \<^verbatim>\<open>slice\<close>: the
  \<^verbatim>\<open>removeEventListener\<close> calls of \<^verbatim>\<open>abort\<close> pass function objects that were never
  registered.
\<close>

theorem pause_leaves_listeners:
  "map listeners (heap (pause (discover test_zip (Some 500000)))) =
     [[(Ev_loadstart, 0), (Ev_abort, 1), (Ev_readystatechange, 2), (Ev_error, 3)],
      [(Ev_progress, 10), (Ev_abort, 11), (Ev_load, 12), (Ev_readystatechange, 13)]] \<and>
   map in_flight (heap (pause (discover test_zip (Some 500000)))) = [False, False] \<and>
   map listeners (heap (close (discover test_zip (Some 500000)))) =
     [[(Ev_loadstart, 0), (Ev_abort, 1), (Ev_readystatechange, 2), (Ev_error, 3)],
      [(Ev_progress, 10), (Ev_abort, 11), (Ev_load, 12), (Ev_readystatechange, 13)]]"
  unfolding discover_Some
  by (simp add: pause_def close_def reset_def abort_def Let_def rline_def
      window_removeEventListener_def xhr_abort_def in_flight_def registered_def upd_def
      onClose_def removeEventListener_def header_request_def chunk_request_def emit_def)

section \<open>The dataFormat property\<close>

text \<open>
  Claim C10. The \<^verbatim>\<open>dataFormat\<close> of a FileLoader reads \<^verbatim>\<open>'binary'\<close> after any sequence of
  calls and events since its construction. The setter throws a TypeError for every
  value other than \<^verbatim>\<open>LoaderDataFormat.BINARY\<close> and returns normally for that value; in
  both cases the stored value is the one before the assignment.
\<close>

theorem dataFormat_always_binary:
  "get_dataFormat (run ins (new_FileLoader r)) = BINARY \<and>
   set_dataFormat v w = (if v = BINARY then Inr w else Inl (TypeError, w)) \<and>
   get_dataFormat (settle (set_dataFormat v w)) = get_dataFormat w"
  by (simp add: get_dataFormat_def run_dataFormat new_FileLoader_dataFormat set_dataFormat_def)

end
